theory Spec2Isabelle
  imports Complex_Main "HOL-Library.Word"
begin

section \<open>AstralDraw: the draw and ticket engine of core/models.py and core/views.py\<close>

text \<open>
  Conventions of the embedding.
  \<^item> A Python \<open>str\<close> is represented by the bytes of its UTF-8 encoding (an Isabelle
    \<open>string\<close>), so \<open>s.encode()\<close> is the identity and \<open>b.decode()\<close> succeeds exactly on
    well-formed UTF-8.
  \<^item> Every \<open>raise\<close> is a value \<open>Inl e\<close> of a sum type.
  \<^item> What a call reads from outside the program (the environment variable
    \<open>SECRET_KEY\<close>, the clock, \<open>os.urandom\<close>) is a field of the record \<open>env\<close>: one value
    of \<open>env\<close> is what one invocation reads.
  \<^item> The database is an explicit value: the rows of \<open>Draw\<close> by primary key, the rows of
    \<open>ForgedKey\<close> in the order of \<open>Meta.ordering\<close> (newest first).
  \<^item> A \<open>Decimal\<close> and a \<open>float\<close> are represented by the rational they denote.
    \<open>float(x)\<close> and the division of floats round to the nearest binary64 value, ties to
    even (\<open>float_of\<close>).
\<close>

subsection \<open>Library layer: base64, PKCS7, UTF-8 and the Fernet token format\<close>

datatype py_error =
    ValueError | TypeError | OverflowError | InvalidToken | UnicodeDecodeError
  | JSONDecodeError | Http404 | FieldError

definition b64_alphabet :: string where
  "b64_alphabet = ''ABCDEFGHIJKLMNOPQRSTUVWXYZabcdefghijklmnopqrstuvwxyz0123456789-_''"

definition b64_char :: "nat \<Rightarrow> char" where
  "b64_char n = b64_alphabet ! n"

fun index_of :: "'a \<Rightarrow> 'a list \<Rightarrow> nat option" where
  "index_of x [] = None"
| "index_of x (y # ys) = (if x = y then Some 0 else map_option Suc (index_of x ys))"

definition b64_index :: "char \<Rightarrow> nat option" where
  "b64_index c = index_of c b64_alphabet"

text \<open>\<open>base64.urlsafe_b64encode\<close>: three bytes give four sextets; the last group is padded
  with \<open>=\<close>.\<close>

fun urlsafe_b64encode :: "string \<Rightarrow> string" where
  "urlsafe_b64encode (a # b # c # rest) =
     (let x = (of_char a :: nat); y = (of_char b :: nat); z = (of_char c :: nat)
      in [b64_char (x div 4), b64_char ((x mod 4) * 16 + y div 16),
          b64_char ((y mod 16) * 4 + z div 64), b64_char (z mod 64)])
     @ urlsafe_b64encode rest"
| "urlsafe_b64encode [a, b] =
     (let x = (of_char a :: nat); y = (of_char b :: nat)
      in [b64_char (x div 4), b64_char ((x mod 4) * 16 + y div 16),
          b64_char ((y mod 16) * 4), CHR ''=''])"
| "urlsafe_b64encode [a] =
     (let x = (of_char a :: nat)
      in [b64_char (x div 4), b64_char ((x mod 4) * 16), CHR ''='', CHR ''=''])"
| "urlsafe_b64encode [] = []"

text \<open>\<open>base64.urlsafe_b64decode\<close> on padded text over the URL-safe alphabet; \<open>None\<close> is
  \<open>binascii.Error\<close>. CPython also drops characters outside the alphabet before it decodes;
  such texts are rejected here.\<close>

fun urlsafe_b64decode :: "string \<Rightarrow> string option" where
  "urlsafe_b64decode [] = Some []"
| "urlsafe_b64decode (c0 # c1 # c2 # c3 # rest) =
     (if rest = [] \<and> c3 = CHR ''='' then
        (if c2 = CHR ''='' then
           (case (b64_index c0, b64_index c1) of
              (Some i0, Some i1) \<Rightarrow> Some [char_of (i0 * 4 + i1 div 16)]
            | _ \<Rightarrow> None)
         else
           (case (b64_index c0, b64_index c1, b64_index c2) of
              (Some i0, Some i1, Some i2) \<Rightarrow>
                Some [char_of (i0 * 4 + i1 div 16), char_of (i1 * 16 + i2 div 4)]
            | _ \<Rightarrow> None))
      else
        (case (b64_index c0, b64_index c1, b64_index c2, b64_index c3) of
           (Some i0, Some i1, Some i2, Some i3) \<Rightarrow>
             (case urlsafe_b64decode rest of
                Some bs \<Rightarrow>
                  Some (char_of (i0 * 4 + i1 div 16) # char_of (i1 * 16 + i2 div 4)
                          # char_of (i2 * 64 + i3) # bs)
              | None \<Rightarrow> None)
         | _ \<Rightarrow> None))"
| "urlsafe_b64decode _ = None"

text \<open>\<open>n.to_bytes(length=k, byteorder="big")\<close> for \<open>n < 256 ^ k\<close>.\<close>

fun be_bytes :: "nat \<Rightarrow> nat \<Rightarrow> string" where
  "be_bytes 0 n = []"
| "be_bytes (Suc k) n = char_of (n div 256 ^ k) # be_bytes k n"

text \<open>PKCS7 padding to the AES block size of 16 bytes.\<close>

definition pkcs7_pad :: "string \<Rightarrow> string" where
  "pkcs7_pad data =
     (let n = 16 - length data mod 16 in data @ replicate n (char_of n))"

definition pkcs7_unpad :: "string \<Rightarrow> string option" where
  "pkcs7_unpad padded =
     (if padded = [] \<or> length padded mod 16 \<noteq> 0 then None
      else
        let n = (of_char (last padded) :: nat) in
        if n = 0 \<or> 16 < n then None
        else if drop (length padded - n) padded = replicate n (last padded)
        then Some (take (length padded - n) padded)
        else None)"

text \<open>Well-formed UTF-8 (the byte ranges of the Unicode standard, which the strict
  decoder of \<open>bytes.decode()\<close> accepts), over the byte values.\<close>

fun utf8_valid :: "nat list \<Rightarrow> bool" where
  "utf8_valid [] = True"
| "utf8_valid (a # rest) =
     (if a < 0x80 then utf8_valid rest
      else if 0xC2 \<le> a \<and> a \<le> 0xDF then
        (case rest of
           b # r \<Rightarrow> 0x80 \<le> b \<and> b \<le> 0xBF \<and> utf8_valid r
         | _ \<Rightarrow> False)
      else if 0xE0 \<le> a \<and> a \<le> 0xEF then
        (case rest of
           b # c # r \<Rightarrow>
             (if a = 0xE0 then 0xA0 \<le> b \<and> b \<le> 0xBF
              else if a = 0xED then 0x80 \<le> b \<and> b \<le> 0x9F
              else 0x80 \<le> b \<and> b \<le> 0xBF)
             \<and> 0x80 \<le> c \<and> c \<le> 0xBF \<and> utf8_valid r
         | _ \<Rightarrow> False)
      else if 0xF0 \<le> a \<and> a \<le> 0xF4 then
        (case rest of
           b # c # d # r \<Rightarrow>
             (if a = 0xF0 then 0x90 \<le> b \<and> b \<le> 0xBF
              else if a = 0xF4 then 0x80 \<le> b \<and> b \<le> 0x8F
              else 0x80 \<le> b \<and> b \<le> 0xBF)
             \<and> 0x80 \<le> c \<and> c \<le> 0xBF \<and> 0x80 \<le> d \<and> d \<le> 0xBF \<and> utf8_valid r
         | _ \<Rightarrow> False)
      else False)"

definition bytes_decode :: "string \<Rightarrow> py_error + string" where
  "bytes_decode bs = (if utf8_valid (map of_char bs) then Inr bs else Inl UnicodeDecodeError)"

subsection \<open>Python floats\<close>

text \<open>\<open>flog2 q\<close> is the exponent \<open>e\<close> with \<open>2 ^ e \<le> q < 2 ^ (e + 1)\<close>, for \<open>q > 0\<close>.\<close>

function flog2 :: "rat \<Rightarrow> int" where
  "flog2 q =
     (if q \<le> 0 then 0
      else if 2 \<le> q then flog2 (q / 2) + 1
      else if q < 1 then flog2 (q * 2) - 1
      else 0)"
  by pat_completeness auto
termination
proof (relation "measure (\<lambda>q. if 1 \<le> q then nat \<lfloor>q\<rfloor> else nat \<lceil>1 / q\<rceil>)")
  show "wf (measure (\<lambda>q :: rat. if 1 \<le> q then nat \<lfloor>q\<rfloor> else nat \<lceil>1 / q\<rceil>))"
    by simp
next
  fix q :: rat
  assume "\<not> q \<le> 0" and q: "2 \<le> q"
  have "\<lfloor>q / 2\<rfloor> < \<lfloor>q\<rfloor>"
  proof -
    have "q / 2 \<le> q - 1" using q by simp
    then have "\<lfloor>q / 2\<rfloor> \<le> \<lfloor>q - 1\<rfloor>" by (rule floor_mono)
    then show ?thesis by simp
  qed
  moreover have "0 < \<lfloor>q\<rfloor>" using q by simp
  ultimately show "(q / 2, q) \<in> measure (\<lambda>q. if 1 \<le> q then nat \<lfloor>q\<rfloor> else nat \<lceil>1 / q\<rceil>)"
    using q by simp
next
  fix q :: rat
  assume pos: "\<not> q \<le> 0" and "\<not> 2 \<le> q" and q: "q < 1"
  have c: "2 \<le> \<lceil>1 / q\<rceil>"
  proof -
    have "1 < 1 / q" using pos q by simp
    then have "1 < \<lceil>1 / q\<rceil>" by (simp add: less_ceiling_iff)
    then show ?thesis by simp
  qed
  show "(q * 2, q) \<in> measure (\<lambda>q. if 1 \<le> q then nat \<lfloor>q\<rfloor> else nat \<lceil>1 / q\<rceil>)"
  proof (cases "1 \<le> q * 2")
    case True
    have "q * 2 < 2" using q by simp
    then have "\<lfloor>q * 2\<rfloor> < 2" by (simp add: floor_less_iff)
    with c have "\<lfloor>q * 2\<rfloor> < \<lceil>1 / q\<rceil>" by linarith
    moreover have "0 < \<lceil>1 / q\<rceil>" using c by linarith
    ultimately show ?thesis using True q by simp
  next
    case False
    then have h: "2 \<le> 1 / q" using pos by (simp add: field_simps)
    have "1 / (q * 2) \<le> 1 / q - 1"
    proof -
      have "1 / (q * 2) = (1 / q) / 2" by simp
      also have "\<dots> \<le> 1 / q - 1"
      proof -
        define y where "y = 1 / q"
        from h have "2 \<le> y" by (simp add: y_def)
        then have "y / 2 \<le> y - 1" by simp
        then show ?thesis by (simp add: y_def)
      qed
      finally show ?thesis .
    qed
    then have "\<lceil>1 / (q * 2)\<rceil> \<le> \<lceil>1 / q - 1\<rceil>" by (rule ceiling_mono)
    then have "\<lceil>1 / (q * 2)\<rceil> < \<lceil>1 / q\<rceil>" by simp
    moreover have "0 < \<lceil>1 / q\<rceil>" using c by linarith
    moreover have "\<not> 1 \<le> q" using q by simp
    ultimately show ?thesis using False by simp
  qed
qed

text \<open>Rounding to the nearest integer, a tie to the even one.\<close>

definition round_half_even :: "rat \<Rightarrow> int" where
  "round_half_even s =
     (let f = \<lfloor>s\<rfloor>; r = s - of_int f
      in if r < 1 / 2 then f
         else if 1 / 2 < r then f + 1
         else if even f then f else f + 1)"

text \<open>The binary64 value nearest to \<open>q\<close>, ties to even: 53 significant bits, and the
  spacing \<open>2 ^ -1074\<close> of the subnormal range at the bottom. This is what \<open>float(d)\<close> returns
  for a \<open>Decimal\<close> \<open>d\<close> and what a float division returns for the exact quotient. Beyond the
  largest binary64 value Python gives \<open>inf\<close>; the amounts of a
  \<open>DecimalField(max_digits=15, decimal_places=2)\<close> are below \<open>10 ^ 13\<close>, and such values are
  outside the model.\<close>

definition float_of :: "rat \<Rightarrow> rat" where
  "float_of q =
     (if q = 0 then 0
      else
        let k = max (flog2 \<bar>q\<bar> - 52) (- 1074);
            m = round_half_even (\<bar>q\<bar> / 2 powi k)
        in sgn q * of_int m * 2 powi k)"


text \<open>The cryptographic primitives of the \<open>cryptography\<close> package are parameters of the
  model: AES-128 in CBC mode (key, IV, data) and HMAC-SHA256 (key, message).\<close>

record crypto =
  cbc_encrypt :: "string \<Rightarrow> string \<Rightarrow> string \<Rightarrow> string"
  cbc_decrypt :: "string \<Rightarrow> string \<Rightarrow> string \<Rightarrow> string"
  hmac_sha256 :: "string \<Rightarrow> string \<Rightarrow> string"

text \<open>What the primitives guarantee: CBC keeps the length of block-aligned data and
  decryption inverts encryption; an HMAC-SHA256 tag has 32 bytes.\<close>

definition crypto_ok :: "crypto \<Rightarrow> bool" where
  "crypto_ok C \<longleftrightarrow>
     (\<forall>k iv m. length m mod 16 = 0 \<longrightarrow>
        length (cbc_encrypt C k iv m) = length m \<and>
        cbc_decrypt C k iv (cbc_encrypt C k iv m) = m) \<and>
     (\<forall>k m. length (hmac_sha256 C k m) = 32)"

text \<open>What one invocation reads from outside the program.\<close>

record env =
  SECRET_KEY :: "string option"   \<comment> \<open>\<open>os.getenv('SECRET_KEY')\<close>\<close>
  time_now :: nat                 \<comment> \<open>\<open>int(time.time())\<close>, seconds since the epoch\<close>
  urandom16 :: "128 word"         \<comment> \<open>\<open>os.urandom(16)\<close>\<close>

text \<open>\<open>Fernet(key)\<close>: the key is 32 url-safe base64-encoded bytes, split into the signing
  key and the encryption key.\<close>

definition Fernet :: "string \<Rightarrow> py_error + (string \<times> string)" where
  "Fernet key =
     (case urlsafe_b64decode key of
        None \<Rightarrow> Inl ValueError
      | Some k \<Rightarrow> if length k \<noteq> 32 then Inl ValueError else Inr (take 16 k, drop 16 k))"

text \<open>\<open>Fernet.encrypt\<close>: version byte \<open>0x80\<close>, the 64-bit timestamp, the fresh 128-bit
  IV, the ciphertext of the padded data, and the HMAC of all of these; base64-encoded.\<close>

definition Fernet_encrypt :: "crypto \<Rightarrow> env \<Rightarrow> string \<times> string \<Rightarrow> string \<Rightarrow> py_error + string" where
  "Fernet_encrypt C E f data =
     (let signing_key = fst f; encryption_key = snd f;
          iv = be_bytes 16 (unat (urandom16 E));
          ciphertext = cbc_encrypt C encryption_key iv (pkcs7_pad data)
      in if 2 ^ 64 \<le> time_now E then Inl OverflowError
         else
           let basic_parts = char_of (0x80 :: nat) # be_bytes 8 (time_now E) @ iv @ ciphertext;
               hmac = hmac_sha256 C signing_key basic_parts
           in Inr (urlsafe_b64encode (basic_parts @ hmac)))"

text \<open>\<open>Fernet.decrypt\<close> without a time-to-live: decode, check the version byte and the
  signature, decrypt, unpad.\<close>

definition Fernet_decrypt :: "crypto \<Rightarrow> string \<times> string \<Rightarrow> string \<Rightarrow> py_error + string" where
  "Fernet_decrypt C f token =
     (let signing_key = fst f; encryption_key = snd f in
      case urlsafe_b64decode token of
        None \<Rightarrow> Inl InvalidToken
      | Some data \<Rightarrow>
          if data = [] \<or> hd data \<noteq> char_of (0x80 :: nat) then Inl InvalidToken
          else if length data < 9 then Inl InvalidToken
          else if hmac_sha256 C signing_key (take (length data - 32) data)
                    \<noteq> drop (length data - 32) data
          then Inl InvalidToken
          else
            let iv = take 16 (drop 9 data);
                ciphertext = drop 25 (take (length data - 32) data)
            in if length iv \<noteq> 16 then Inl ValueError
               else if length ciphertext mod 16 \<noteq> 0 then Inl InvalidToken
               else
                 (case pkcs7_unpad (cbc_decrypt C encryption_key iv ciphertext) of
                    None \<Rightarrow> Inl InvalidToken
                  | Some plaintext \<Rightarrow> Inr plaintext))"

subsection \<open>The JSON of a list of integers\<close>

fun digits :: "nat \<Rightarrow> string" where
  "digits n =
     (if n < 10 then [char_of (48 + n)] else digits (n div 10) @ [char_of (48 + n mod 10)])"

definition str_int :: "int \<Rightarrow> string" where
  "str_int i = (if i < 0 then CHR ''-'' # digits (nat (- i)) else digits (nat i))"

fun join_ints :: "int list \<Rightarrow> string" where
  "join_ints [] = []"
| "join_ints [x] = str_int x"
| "join_ints (x # y # ys) = str_int x @ '', '' @ join_ints (y # ys)"

text \<open>\<open>json.dumps\<close> of a list of integers: \<open>[1, 2, 3]\<close>.\<close>

definition json_dumps :: "int list \<Rightarrow> string" where
  "json_dumps xs = ''['' @ join_ints xs @ '']''"

definition is_ws :: "char \<Rightarrow> bool" where
  "is_ws c \<longleftrightarrow> c = CHR '' '' \<or> c = CHR 0x09 \<or> c = CHR 0x0A \<or> c = CHR 0x0D"

definition is_digit :: "char \<Rightarrow> bool" where
  "is_digit c \<longleftrightarrow> 48 \<le> (of_char c :: nat) \<and> (of_char c :: nat) \<le> 57"

definition digit_val :: "char \<Rightarrow> nat" where
  "digit_val c = of_char c - 48"

datatype jstate =
    JStart | JOpen | JAfterComma | JMinus | JZero | JNum bool nat | JAfterVal | JClosed

definition signed :: "bool \<Rightarrow> nat \<Rightarrow> int" where
  "signed neg v = (if neg then - int v else int v)"

text \<open>\<open>json.loads\<close> on the documents whose value is an array of integers, as a scanner
  over the text; \<open>None\<close> is \<open>JSONDecodeError\<close>. A JSON document of any other shape (which
  no path of the program writes into a \<open>star_keys\<close> field) is outside the model and is
  rejected as well.\<close>

fun json_run :: "jstate \<Rightarrow> int list \<Rightarrow> string \<Rightarrow> int list option" where
  "json_run st acc [] = (if st = JClosed then Some (rev acc) else None)"
| "json_run JStart acc (c # cs) =
     (if is_ws c then json_run JStart acc cs
      else if c = CHR ''['' then json_run JOpen acc cs else None)"
| "json_run JOpen acc (c # cs) =
     (if is_ws c then json_run JOpen acc cs
      else if c = CHR '']'' then json_run JClosed acc cs
      else if c = CHR ''-'' then json_run JMinus acc cs
      else if c = CHR ''0'' then json_run JZero acc cs
      else if is_digit c then json_run (JNum False (digit_val c)) acc cs
      else None)"
| "json_run JAfterComma acc (c # cs) =
     (if is_ws c then json_run JAfterComma acc cs
      else if c = CHR ''-'' then json_run JMinus acc cs
      else if c = CHR ''0'' then json_run JZero acc cs
      else if is_digit c then json_run (JNum False (digit_val c)) acc cs
      else None)"
| "json_run JMinus acc (c # cs) =
     (if c = CHR ''0'' then json_run JZero acc cs
      else if is_digit c then json_run (JNum True (digit_val c)) acc cs
      else None)"
| "json_run JZero acc (c # cs) =
     (if is_ws c then json_run JAfterVal (0 # acc) cs
      else if c = CHR '','' then json_run JAfterComma (0 # acc) cs
      else if c = CHR '']'' then json_run JClosed (0 # acc) cs
      else None)"
| "json_run (JNum neg v) acc (c # cs) =
     (if is_digit c then json_run (JNum neg (10 * v + digit_val c)) acc cs
      else if is_ws c then json_run JAfterVal (signed neg v # acc) cs
      else if c = CHR '','' then json_run JAfterComma (signed neg v # acc) cs
      else if c = CHR '']'' then json_run JClosed (signed neg v # acc) cs
      else None)"
| "json_run JAfterVal acc (c # cs) =
     (if is_ws c then json_run JAfterVal acc cs
      else if c = CHR '','' then json_run JAfterComma acc cs
      else if c = CHR '']'' then json_run JClosed acc cs
      else None)"
| "json_run JClosed acc (c # cs) =
     (if is_ws c then json_run JClosed acc cs else None)"

definition json_loads :: "string \<Rightarrow> py_error + int list" where
  "json_loads s = (case json_run JStart [] s of None \<Rightarrow> Inl JSONDecodeError | Some xs \<Rightarrow> Inr xs)"

subsection \<open>The key codec: \<open>encrypt_data\<close> and \<open>decrypt_data\<close>\<close>

text \<open>\<open>bytes.ljust(width)\<close> pads with spaces on the right.\<close>

definition ljust :: "nat \<Rightarrow> string \<Rightarrow> string" where
  "ljust width s = s @ replicate (width - length s) (CHR '' '')"

text \<open>\<open>str.startswith\<close>.\<close>

definition startswith :: "string \<Rightarrow> string \<Rightarrow> bool" where
  "startswith s p \<longleftrightarrow> take (length p) s = p"

text \<open>The signing key and the encryption key that \<open>Fernet\<close> holds for a configured
  secret: the halves of \<open>key_bytes.ljust(32)[:32]\<close>.\<close>

definition fernet_keys :: "string \<Rightarrow> string \<times> string" where
  "fernet_keys secret_key = (take 16 (take 32 (ljust 32 secret_key)), drop 16 (take 32 (ljust 32 secret_key)))"

text \<open>\<open>Draw.encrypt_data\<close> (models.py 105-117); \<open>ForgedKey.encrypt_data\<close> (283-295) and
  \<open>UserWallet.encrypt_key\<close> (32-46) have the same body. Every exception inside the
  \<open>try\<close> leaves as \<open>ValueError\<close>.\<close>

definition encrypt_data :: "crypto \<Rightarrow> env \<Rightarrow> string \<Rightarrow> py_error + string" where
  "encrypt_data C E data =
     (case SECRET_KEY E of
        None \<Rightarrow> Inl ValueError
      | Some secret_key \<Rightarrow>
          if secret_key = [] then Inl ValueError
          else
            let key_bytes = secret_key;
                key_base64 = urlsafe_b64encode (take 32 (ljust 32 key_bytes))
            in case Fernet key_base64 of
                 Inl e \<Rightarrow> Inl ValueError
               | Inr f \<Rightarrow>
                   (case Fernet_encrypt C E f data of
                      Inl e \<Rightarrow> Inl ValueError
                    | Inr token \<Rightarrow>
                        (case bytes_decode token of
                           Inl e \<Rightarrow> Inl ValueError
                         | Inr s \<Rightarrow> Inr s)))"

text \<open>\<open>Draw.decrypt_data\<close> (models.py 119-131); \<open>ForgedKey.decrypt_data\<close> (297-309) has
  the same body.\<close>

definition decrypt_data :: "crypto \<Rightarrow> env \<Rightarrow> string \<Rightarrow> py_error + string" where
  "decrypt_data C E encrypted_data =
     (case SECRET_KEY E of
        None \<Rightarrow> Inl ValueError
      | Some secret_key \<Rightarrow>
          if secret_key = [] then Inl ValueError
          else
            let key_bytes = secret_key;
                key_base64 = urlsafe_b64encode (take 32 (ljust 32 key_bytes))
            in case Fernet key_base64 of
                 Inl e \<Rightarrow> Inl ValueError
               | Inr f \<Rightarrow>
                   (case Fernet_decrypt C f encrypted_data of
                      Inl e \<Rightarrow> Inl ValueError
                    | Inr plaintext \<Rightarrow>
                        (case bytes_decode plaintext of
                           Inl e \<Rightarrow> Inl ValueError
                         | Inr s \<Rightarrow> Inr s)))"

text \<open>The body shared by \<open>Draw.get_star_keys\<close> (133-141) and \<open>ForgedKey.get_star_keys\<close>
  (311-319), on the value of the \<open>star_keys\<close> field (\<open>None\<close> is SQL NULL): an empty
  field, a failed decryption and a failed parse all give the empty list.\<close>

definition get_star_keys :: "crypto \<Rightarrow> env \<Rightarrow> string option \<Rightarrow> int list" where
  "get_star_keys C E field =
     (case field of
        None \<Rightarrow> []
      | Some s \<Rightarrow>
          if s = [] then []
          else
            (case decrypt_data C E s of
               Inl e \<Rightarrow> []
             | Inr decrypted \<Rightarrow>
                 (case json_loads decrypted of
                    Inl e \<Rightarrow> []
                  | Inr keys \<Rightarrow> keys)))"

subsection \<open>Entities\<close>

datatype DrawStatus = UPCOMING | ACTIVE | ENDED | CANCELLED

record UserWallet =
  wallet_id :: nat
  public_key :: "string option"
  private_key :: "string option"
  recipient_id :: "string option"

record Draw =
  draw_id :: nat
  title :: string
  prize_pool :: rat
  star_keys :: string
  nft_id :: "string option"
  hcs_message_id :: "string option"
  status :: DrawStatus
  draw_datetime :: int
  total_tickets_sold :: nat
  total_prize_distributed :: rat
  winning_ticket_serial :: "string option"
  winner_wallet :: "nat option"

record ForgedKey =
  fk_id :: nat
  fk_user_wallet :: nat
  fk_draw :: nat
  fk_star_keys :: "string option"
  serial_number :: string

text \<open>The database: \<open>Draw\<close> rows by primary key, \<open>ForgedKey\<close> rows in the order of
  \<open>Meta.ordering\<close>, and the join \<open>wallet.user.username\<close> (total, as the foreign keys are
  enforced by the database).\<close>

record database =
  draws :: "nat \<Rightarrow> Draw option"
  forged_keys :: "ForgedKey list"
  wallet_username :: "nat \<Rightarrow> string"

subsection \<open>\<open>UserWallet\<close>, \<open>Draw\<close> and \<open>ForgedKey\<close> methods\<close>

text \<open>\<open>UserWallet.save\<close> (models.py 24-30), up to the call of \<open>super().save\<close>.\<close>

definition UserWallet_save :: "crypto \<Rightarrow> env \<Rightarrow> UserWallet \<Rightarrow> py_error + UserWallet" where
  "UserWallet_save C E self =
     (case private_key self of
        None \<Rightarrow> Inr self
      | Some key_str \<Rightarrow>
          if key_str = [] then Inr self
          else if \<not> startswith key_str ''gAAAA'' then
            (case encrypt_data C E key_str of
               Inl e \<Rightarrow> Inl e
             | Inr c \<Rightarrow> Inr (self\<lparr>private_key := Some c\<rparr>))
          else Inr self)"

text \<open>\<open>Draw.save\<close> (models.py 99-103): the guarded encryption, then the row is written.
  The result is the object after the call and the database after the call.\<close>

definition Draw_save :: "crypto \<Rightarrow> env \<Rightarrow> database \<Rightarrow> Draw \<Rightarrow> py_error + (Draw \<times> database)" where
  "Draw_save C E db self =
     (if star_keys self \<noteq> [] \<and> \<not> startswith (star_keys self) ''gAAAA'' then
        (case encrypt_data C E (star_keys self) of
           Inl e \<Rightarrow> Inl e
         | Inr c \<Rightarrow>
             (let self' = self\<lparr>star_keys := c\<rparr>
              in Inr (self', db\<lparr>draws := (draws db)(draw_id self' \<mapsto> self')\<rparr>)))
      else Inr (self, db\<lparr>draws := (draws db)(draw_id self \<mapsto> self)\<rparr>))"

definition Draw_get_star_keys :: "crypto \<Rightarrow> env \<Rightarrow> Draw \<Rightarrow> int list" where
  "Draw_get_star_keys C E self = get_star_keys C E (Some (star_keys self))"

text \<open>\<open>Draw.set_star_keys\<close> (models.py 143-145).\<close>

definition Draw_set_star_keys :: "crypto \<Rightarrow> env \<Rightarrow> Draw \<Rightarrow> int list \<Rightarrow> py_error + Draw" where
  "Draw_set_star_keys C E self keys_list =
     (case encrypt_data C E (json_dumps keys_list) of
        Inl e \<Rightarrow> Inl e
      | Inr c \<Rightarrow> Inr (self\<lparr>star_keys := c\<rparr>))"

definition ForgedKey_get_star_keys :: "crypto \<Rightarrow> env \<Rightarrow> ForgedKey \<Rightarrow> int list" where
  "ForgedKey_get_star_keys C E self = get_star_keys C E (fk_star_keys self)"

text \<open>\<open>ForgedKey.set_star_keys\<close> (models.py 321-323).\<close>

definition ForgedKey_set_star_keys ::
  "crypto \<Rightarrow> env \<Rightarrow> ForgedKey \<Rightarrow> int list \<Rightarrow> py_error + ForgedKey" where
  "ForgedKey_set_star_keys C E self keys_list =
     (case encrypt_data C E (json_dumps keys_list) of
        Inl e \<Rightarrow> Inl e
      | Inr c \<Rightarrow> Inr (self\<lparr>fk_star_keys := Some c\<rparr>))"

text \<open>\<open>Draw.map_winner\<close> (models.py 147-167). \<open>ForgedKey.objects.filter(...).first()\<close> is
  the first matching row in the default ordering. The result is the winner, the object
  after the call and the database after the call.\<close>

definition map_winner ::
  "crypto \<Rightarrow> env \<Rightarrow> database \<Rightarrow> Draw \<Rightarrow> py_error + (ForgedKey option \<times> Draw \<times> database)" where
  "map_winner C E db self =
     (let winning_keys = Draw_get_star_keys C E self in
      if winning_keys = [] \<or> length winning_keys \<noteq> 6 then Inr (None, self, db)
      else
        (case filter (\<lambda>fk. fk_draw fk = draw_id self \<and> fk_star_keys fk = Some (star_keys self))
                (forged_keys db) of
           [] \<Rightarrow> Inr (None, self, db)
         | exact_match # _ \<Rightarrow>
             (let self1 = self\<lparr>winning_ticket_serial := Some (serial_number exact_match),
                              winner_wallet := Some (fk_user_wallet exact_match)\<rparr>
              in case Draw_save C E db self1 of
                   Inl e \<Rightarrow> Inl e
                 | Inr (self2, db2) \<Rightarrow> Inr (Some exact_match, self2, db2))))"

record match =
  forged_key :: ForgedKey
  match_count :: nat
  matched_keys :: "int set"

text \<open>\<open>Draw.map_nearest_winner\<close> (models.py 169-197). \<open>list.sort(key, reverse=True)\<close> is
  stable, as \<open>sort_key\<close> is. \<open>fk.get_star_keys()\<close> raises nothing, so the
  \<open>except\<close> branch of the loop is never taken.\<close>

definition map_nearest_winner :: "crypto \<Rightarrow> env \<Rightarrow> database \<Rightarrow> Draw \<Rightarrow> int \<Rightarrow> match list" where
  "map_nearest_winner C E db self min_matches =
     (let winning_keys = set (Draw_get_star_keys C E self) in
      if winning_keys = {} \<or> card winning_keys \<noteq> 6 then []
      else
        let forged_keys = filter (\<lambda>fk. fk_draw fk = draw_id self) (forged_keys db);
            matches =
              concat (map (\<lambda>fk.
                let ticket_keys = set (ForgedKey_get_star_keys C E fk);
                    match_count = card (winning_keys \<inter> ticket_keys)
                in if min_matches \<le> int match_count
                   then [\<lparr>forged_key = fk, match_count = match_count,
                          matched_keys = winning_keys \<inter> ticket_keys\<rparr>]
                   else []) forged_keys)
        in sort_key (\<lambda>x. - int (match_count x)) matches)"






text \<open>\<open>Draw.can_participate\<close> (models.py 246-248).\<close>

definition can_participate :: "env \<Rightarrow> Draw \<Rightarrow> bool" where
  "can_participate E self \<longleftrightarrow>
     (status self = UPCOMING \<or> status self = ACTIVE) \<and> int (time_now E) < draw_datetime self"

text \<open>\<open>ForgedKey.calculate_rarity\<close> (models.py 382-399). Python's \<open>%\<close> on integers
  is the floor modulus, as \<open>mod\<close> on \<open>int\<close> is.\<close>

definition calculate_rarity :: "crypto \<Rightarrow> env \<Rightarrow> ForgedKey \<Rightarrow> string" where
  "calculate_rarity C E self =
     (let keys = ForgedKey_get_star_keys C E self in
      if keys = [] then ''Common''
      else
        let unique_keys = card (set keys) in
        if unique_keys = 6 then ''Rare''
        else if length (filter (\<lambda>k. k mod 2 = 0) keys) = 6 then ''Epic''
        else if length (filter (\<lambda>k. k mod 2 \<noteq> 0) keys) = 6 then ''Epic''
        else if card (set keys) = 1 then ''Legendary''
        else ''Common'')"

subsection \<open>Views\<close>

record request =
  authenticated :: bool
  is_staff :: bool
  http_method :: string

datatype failure = AdminAccessRequired | DrawCannotBeProcessed | Raised py_error

record winner_info =
  w_username :: string
  w_serial_number :: string
  w_prize_amount :: rat

datatype process_response =
    RedirectToLogin
  | MethodNotAllowed
  | JsonFailure failure              \<comment> \<open>\<open>{'success': False, 'error': ...}\<close>\<close>
  | JsonSuccess "winner_info option" \<comment> \<open>\<open>{'success': True, 'winner': ...}\<close>\<close>

text \<open>\<open>draw.prize_pool * 0.7\<close> in \<open>process_draw\<close> (views.py 474): the left operand is the
  \<open>Decimal\<close> of a \<open>DecimalField\<close>, the right one a \<open>float\<close>, and Python's \<open>Decimal\<close>
  refuses arithmetic with \<open>float\<close>: the expression raises \<open>TypeError\<close>.\<close>

definition decimal_times_float :: "rat \<Rightarrow> rat \<Rightarrow> py_error + rat" where
  "decimal_times_float d f = Inl TypeError"

text \<open>\<open>Draw.objects.filter(id=draw_id).update(...)\<close>.\<close>

definition update_draw :: "database \<Rightarrow> nat \<Rightarrow> (Draw \<Rightarrow> Draw) \<Rightarrow> database" where
  "update_draw db i f =
     (case draws db i of
        None \<Rightarrow> db
      | Some row \<Rightarrow> db\<lparr>draws := (draws db)(i \<mapsto> f row)\<rparr>)"

text \<open>\<open>process_draw\<close> (views.py 456-500). The decorators come first, then the staff check;
  everything after it is inside \<open>try ... except Exception\<close>. \<open>map_winner\<close> runs before
  \<open>transaction.atomic()\<close> is entered, so what it saved stays when the block raises. The
  cache is not part of the model.\<close>

definition process_draw ::
  "crypto \<Rightarrow> env \<Rightarrow> request \<Rightarrow> database \<Rightarrow> nat \<Rightarrow> process_response \<times> database" where
  "process_draw C E req db i =
     (if \<not> authenticated req then (RedirectToLogin, db)
      else if http_method req \<noteq> ''POST'' then (MethodNotAllowed, db)
      else if \<not> is_staff req then (JsonFailure AdminAccessRequired, db)
      else
        (case draws db i of
           None \<Rightarrow> (JsonFailure (Raised Http404), db)
         | Some draw \<Rightarrow>
             if status draw \<noteq> ACTIVE \<or> int (time_now E) < draw_datetime draw
             then (JsonFailure DrawCannotBeProcessed, db)
             else
               (case map_winner C E db draw of
                  Inl e \<Rightarrow> (JsonFailure (Raised e), db)
                | Inr (None, draw1, db1) \<Rightarrow>
                    (JsonSuccess None, update_draw db1 i (\<lambda>row. row\<lparr>status := ENDED\<rparr>))
                | Inr (Some winner, draw1, db1) \<Rightarrow>
                    (case decimal_times_float (prize_pool draw1) (7 / 10) of
                       Inl e \<Rightarrow> (JsonFailure (Raised e), db1)
                     | Inr prize_amount \<Rightarrow>
                         (JsonSuccess
                            (Some \<lparr>w_username = wallet_username db1 (fk_user_wallet winner),
                                   w_serial_number = serial_number winner,
                                   w_prize_amount = float_of prize_amount\<rparr>),
                          update_draw db1 i
                            (\<lambda>row. row\<lparr>total_prize_distributed := prize_amount,
                                       status := ENDED,
                                       winner_wallet := Some (fk_user_wallet winner),
                                       winning_ticket_serial := Some (serial_number winner)\<rparr>))))))"

record draw_data =
  dd_id :: nat
  dd_title :: string
  dd_status :: DrawStatus
  dd_prize_pool :: rat
  dd_draw_datetime :: int
  dd_total_tickets_sold :: nat
  dd_can_participate :: bool
  dd_winning_keys :: "int list option"   \<comment> \<open>the key \<open>winning_keys\<close>, when present\<close>

datatype detail_response =
    DetailRedirectToLogin
  | DetailNotFound
  | DetailServerError py_error
  | DetailJson draw_data

text \<open>\<open>draw_detail\<close> (views.py 360-389). The lookup of the winner's name filters \<open>User\<close>
  on \<open>userwallet__id\<close>; the relation is declared with \<open>related_name='wallet'\<close> (models.py
  17), so that name does not resolve and the query raises \<open>FieldError\<close>, which nothing
  in the view catches: no response carries the key \<open>winner\<close>.\<close>

definition draw_detail :: "crypto \<Rightarrow> env \<Rightarrow> request \<Rightarrow> database \<Rightarrow> nat \<Rightarrow> detail_response" where
  "draw_detail C E req db i =
     (if \<not> authenticated req then DetailRedirectToLogin
      else
        (case draws db i of
           None \<Rightarrow> DetailNotFound
         | Some draw \<Rightarrow>
             (let draw_data =
                    \<lparr>dd_id = draw_id draw,
                     dd_title = title draw,
                     dd_status = status draw,
                     dd_prize_pool = float_of (prize_pool draw),
                     dd_draw_datetime = draw_datetime draw,
                     dd_total_tickets_sold = total_tickets_sold draw,
                     dd_can_participate = can_participate E draw,
                     dd_winning_keys = None\<rparr>
              in if status draw = ENDED then
                   (let draw_data1 = draw_data\<lparr>dd_winning_keys := Some (Draw_get_star_keys C E draw)\<rparr>
                    in if winner_wallet draw \<noteq> None then DetailServerError FieldError
                       else DetailJson draw_data1)
                 else DetailJson draw_data)))"

subsection \<open>A concrete environment\<close>

text \<open>Stand-ins for the primitives, an environment, and rows, for instantiating the
  theorems below at concrete inputs. The stand-in cipher reverses the data; the stand-in
  tag is 32 bytes holding the length of the message.\<close>

definition demo_crypto :: crypto where
  "demo_crypto =
     \<lparr>cbc_encrypt = (\<lambda>k iv m. rev m),
      cbc_decrypt = (\<lambda>k iv c. rev c),
      hmac_sha256 = (\<lambda>k m. replicate 32 (char_of (length m)))\<rparr>"

definition demo_env :: env where
  "demo_env = \<lparr>SECRET_KEY = Some ''astral-secret'', time_now = 1700000000, urandom16 = 1\<rparr>"

definition demo_draw :: Draw where
  "demo_draw =
     \<lparr>draw_id = 1, title = ''Nebula-1 Convergence'', prize_pool = 1000, star_keys = [],
      nft_id = None, hcs_message_id = None, status = ACTIVE, draw_datetime = 1600000000,
      total_tickets_sold = 1, total_prize_distributed = 0, winning_ticket_serial = None,
      winner_wallet = None\<rparr>"

definition demo_ticket :: ForgedKey where
  "demo_ticket =
     \<lparr>fk_id = 1, fk_user_wallet = 7, fk_draw = 1, fk_star_keys = None,
      serial_number = ''AK000100070001''\<rparr>"

definition demo_request :: request where
  "demo_request = \<lparr>authenticated = True, is_staff = True, http_method = ''POST''\<rparr>"

text \<open>A database holding one draw and the given tickets.\<close>

definition demo_db :: "Draw \<Rightarrow> ForgedKey list \<Rightarrow> database" where
  "demo_db d fks =
     \<lparr>draws = Map.empty(draw_id d \<mapsto> d), forged_keys = fks,
      wallet_username = (\<lambda>w. ''player'')\<rparr>"

text \<open>The value that \<open>set_star_keys(keys)\<close> stores under the stand-in primitives when the
  invocation reads \<open>E\<close>.\<close>

definition token_of :: "env \<Rightarrow> int list \<Rightarrow> string" where
  "token_of E keys =
     (case encrypt_data demo_crypto E (json_dumps keys) of Inr token \<Rightarrow> token | Inl e \<Rightarrow> [])"





section \<open>Properties\<close>

subsection \<open>Base64, padding and the token format\<close>

lemma index_of_nth: "distinct xs \<Longrightarrow> n < length xs \<Longrightarrow> index_of (xs ! n) xs = Some n"
proof (induction xs arbitrary: n)
  case Nil
  then show ?case by simp
next
  case (Cons y ys)
  show ?case
  proof (cases n)
    case 0
    then show ?thesis by simp
  next
    case (Suc m)
    with Cons.prems have "m < length ys" "distinct ys" "ys ! m \<noteq> y"
      by auto
    with Cons.IH[of m] Suc show ?thesis by simp
  qed
qed

lemma distinct_b64_alphabet: "distinct b64_alphabet"
  by (simp add: b64_alphabet_def)

lemma length_b64_alphabet: "length b64_alphabet = 64"
  by (simp add: b64_alphabet_def)

lemma b64_index_char: "n < 64 \<Longrightarrow> b64_index (b64_char n) = Some n"
  unfolding b64_index_def b64_char_def
  by (rule index_of_nth[OF distinct_b64_alphabet]) (simp add: length_b64_alphabet)

lemma b64_char_in_alphabet: "n < 64 \<Longrightarrow> b64_char n \<in> set b64_alphabet"
  unfolding b64_char_def by (rule nth_mem) (simp add: length_b64_alphabet)

lemma b64_char_not_pad: "n < 64 \<Longrightarrow> b64_char n \<noteq> CHR ''=''"
proof -
  assume "n < 64"
  then have "b64_char n \<in> set b64_alphabet" by (rule b64_char_in_alphabet)
  moreover have "CHR ''='' \<notin> set b64_alphabet" by (simp add: b64_alphabet_def)
  ultimately show ?thesis by metis
qed

lemma sextet_bounds:
  fixes x y z :: nat
  assumes "x < 256" "y < 256" "z < 256"
  shows "x div 4 < 64" "(x mod 4) * 16 + y div 16 < 64" "(y mod 16) * 4 + z div 64 < 64"
    "z mod 64 < 64" "(y mod 16) * 4 < 64" "(x mod 4) * 16 < 64"
  using assms by simp_all

lemma of_char_div_256 [simp]:
  "(of_char c :: nat) div 16 div 16 = 0" "(of_char c :: nat) div 64 div 4 = 0"
proof -
  have "(of_char c :: nat) < 256" by simp
  then show "(of_char c :: nat) div 16 div 16 = 0" "(of_char c :: nat) div 64 div 4 = 0"
    by (simp_all add: div_mult2_eq[symmetric])
qed

lemma char_of_add_256 [simp]: "char_of ((of_char c :: nat) + 256 * k) = c"
proof -
  have "((of_char c :: nat) + 256 * k) mod 256 = of_char c" by simp
  then show ?thesis by (metis char_of_char char_of_mod_256)
qed

lemma char_of_add_256' [simp]: "char_of ((of_char c :: nat) + (256 * k + 0)) = c"
  by simp

lemma b64_roundtrip: "urlsafe_b64decode (urlsafe_b64encode xs) = Some xs"
proof (induction xs rule: urlsafe_b64encode.induct)
  case (1 a b c rest)
  have bs: "(of_char a :: nat) < 256" "(of_char b :: nat) < 256" "(of_char c :: nat) < 256"
    by simp_all
  note sb = sextet_bounds[OF bs]
  show ?case
    using 1
    by (simp add: Let_def b64_index_char b64_char_not_pad sb)
next
  case (2 a b)
  have bs: "(of_char a :: nat) < 256" "(of_char b :: nat) < 256" "(of_char b :: nat) < 256"
    by simp_all
  note sb = sextet_bounds[OF bs]
  show ?case
    by (simp add: Let_def b64_index_char b64_char_not_pad sb)
next
  case (3 a)
  have bs: "(of_char a :: nat) < 256" "(of_char a :: nat) < 256" "(of_char a :: nat) < 256"
    by simp_all
  note sb = sextet_bounds[OF bs]
  show ?case
    by (simp add: Let_def b64_index_char b64_char_not_pad sb)
next
  case 4
  show ?case by simp
qed

lemma b64_alphabet_ascii: "c \<in> set b64_alphabet \<Longrightarrow> (of_char c :: nat) < 128"
  by (auto simp: b64_alphabet_def)

lemma b64_char_ascii: "n < 64 \<Longrightarrow> (of_char (b64_char n) :: nat) < 128"
  by (rule b64_alphabet_ascii) (rule b64_char_in_alphabet)

lemma b64encode_ascii: "c \<in> set (urlsafe_b64encode xs) \<Longrightarrow> (of_char c :: nat) < 128"
proof (induction xs arbitrary: c rule: urlsafe_b64encode.induct)
  case (1 a b c' rest)
  have bs: "(of_char a :: nat) < 256" "(of_char b :: nat) < 256" "(of_char c' :: nat) < 256"
    by simp_all
  note sb = sextet_bounds[OF bs]
  from 1 show ?case
    by (auto simp: Let_def intro: b64_char_ascii sb)
next
  case (2 a b)
  have bs: "(of_char a :: nat) < 256" "(of_char b :: nat) < 256" "(of_char b :: nat) < 256"
    by simp_all
  note sb = sextet_bounds[OF bs]
  from 2 show ?case
    by (auto simp: Let_def intro: b64_char_ascii sb)
next
  case (3 a)
  have bs: "(of_char a :: nat) < 256" "(of_char a :: nat) < 256" "(of_char a :: nat) < 256"
    by simp_all
  note sb = sextet_bounds[OF bs]
  from 3 show ?case
    by (auto simp: Let_def intro: b64_char_ascii sb)
next
  case 4
  then show ?case by simp
qed

lemma utf8_valid_ascii: "(\<And>a. a \<in> set xs \<Longrightarrow> a < 128) \<Longrightarrow> utf8_valid xs"
  by (induction xs) simp_all

lemma bytes_decode_ascii:
  assumes "\<And>c. c \<in> set bs \<Longrightarrow> (of_char c :: nat) < 128"
  shows "bytes_decode bs = Inr bs"
proof -
  have "utf8_valid (map of_char bs)"
    by (rule utf8_valid_ascii) (use assms in auto)
  then show ?thesis by (simp add: bytes_decode_def)
qed

lemma bytes_decode_b64: "bytes_decode (urlsafe_b64encode xs) = Inr (urlsafe_b64encode xs)"
  by (rule bytes_decode_ascii) (rule b64encode_ascii)

lemma length_key32: "length (take 32 (ljust 32 s)) = 32"
  by (simp add: ljust_def)

lemma Fernet_key:
  "Fernet (urlsafe_b64encode (take 32 (ljust 32 s))) = Inr (fernet_keys s)"
  unfolding Fernet_def fernet_keys_def
  by (simp only: b64_roundtrip option.case length_key32 if_False simp_thms)

lemma pkcs7_roundtrip: "pkcs7_unpad (pkcs7_pad d) = Some d"
proof -
  define n where "n = 16 - length d mod 16"
  have n: "0 < n" "n \<le> 16" by (simp_all add: n_def)
  have len: "(length d + n) mod 16 = 0"
    unfolding n_def by presburger
  have ofc: "(of_char (char_of n) :: nat) = n" using n by simp
  have pad: "pkcs7_pad d = d @ replicate n (char_of n)"
    by (simp add: pkcs7_pad_def n_def Let_def)
  have lst: "last (d @ replicate n (char_of n)) = char_of n"
    using n by (cases n) simp_all
  show ?thesis
    unfolding pad pkcs7_unpad_def using n len by (simp add: lst ofc Let_def)
qed

lemma length_pkcs7_pad: "length (pkcs7_pad d) mod 16 = 0"
proof -
  have "(length d + (16 - length d mod 16)) mod 16 = 0" by presburger
  then show ?thesis by (simp add: pkcs7_pad_def Let_def)
qed

lemma length_be_bytes [simp]: "length (be_bytes k n) = k"
  by (induction k) simp_all

lemma Fernet_roundtrip:
  assumes ok: "crypto_ok C" and t: "time_now E < 2 ^ 64"
  shows "\<exists>token. Fernet_encrypt C E f d = Inr token \<and> Fernet_decrypt C f token = Inr d"
proof -
  define iv where "iv = be_bytes 16 (unat (urandom16 E))"
  define ct where "ct = cbc_encrypt C (snd f) iv (pkcs7_pad d)"
  define bp where "bp = char_of (0x80 :: nat) # be_bytes 8 (time_now E) @ iv @ ct"
  define mac where "mac = hmac_sha256 C (fst f) bp"
  define data where "data = bp @ mac"
  have enc: "Fernet_encrypt C E f d = Inr (urlsafe_b64encode data)"
    using t by (simp add: Fernet_encrypt_def Let_def data_def mac_def bp_def ct_def iv_def)
  have liv: "length iv = 16" by (simp add: iv_def)
  have lmac: "length mac = 32" using ok by (simp add: mac_def crypto_ok_def)
  have lct: "length ct mod 16 = 0"
    using ok length_pkcs7_pad[of d] by (simp add: ct_def crypto_ok_def)
  have dct: "cbc_decrypt C (snd f) iv ct = pkcs7_pad d"
    using ok length_pkcs7_pad[of d] by (simp add: ct_def crypto_ok_def)
  have tk: "take (length data - 32) data = bp"
    by (simp add: data_def lmac)
  have dr: "drop (length data - 32) data = mac"
    by (simp add: data_def lmac)
  have hd: "hd data = char_of (0x80 :: nat)" and ne: "data \<noteq> []"
    by (simp_all add: data_def bp_def)
  have l9: "\<not> length data < 9" by (simp add: data_def bp_def)
  have iv': "take 16 (drop 9 data) = iv"
    by (simp add: data_def bp_def liv)
  have ct': "drop 25 bp = ct"
    by (simp add: bp_def liv)
  have sig: "hmac_sha256 C (fst f) bp = mac" by (simp add: mac_def)
  have dec: "Fernet_decrypt C f (urlsafe_b64encode data) = Inr d"
    unfolding Fernet_decrypt_def b64_roundtrip Let_def option.case tk dr iv' ct'
    by (simp only: hd ne l9 sig liv lct dct pkcs7_roundtrip simp_thms if_False if_True option.case)
  from enc dec show ?thesis by blast
qed

lemma encrypt_data_unfold:
  assumes "SECRET_KEY E = Some s" "s \<noteq> []"
  shows "encrypt_data C E d =
     (case Fernet_encrypt C E (fernet_keys s) d of
        Inl e \<Rightarrow> Inl ValueError
      | Inr token \<Rightarrow> (case bytes_decode token of Inl e \<Rightarrow> Inl ValueError | Inr t \<Rightarrow> Inr t))"
  using assms by (simp add: encrypt_data_def Let_def Fernet_key)

lemma decrypt_data_unfold:
  assumes "SECRET_KEY E = Some s" "s \<noteq> []"
  shows "decrypt_data C E t =
     (case Fernet_decrypt C (fernet_keys s) t of
        Inl e \<Rightarrow> Inl ValueError
      | Inr p \<Rightarrow> (case bytes_decode p of Inl e \<Rightarrow> Inl ValueError | Inr t \<Rightarrow> Inr t))"
  using assms by (simp add: decrypt_data_def Let_def Fernet_key)

lemma Fernet_encrypt_b64:
  "Fernet_encrypt C E f d = Inr token \<Longrightarrow> \<exists>raw. token = urlsafe_b64encode raw"
  by (auto simp: Fernet_encrypt_def Let_def split: if_splits)

lemma codec_roundtrip:
  assumes ok: "crypto_ok C" and sk: "SECRET_KEY E = Some s" "s \<noteq> []"
    and t: "time_now E < 2 ^ 64"
    and sk': "SECRET_KEY E' = Some s"
    and u: "bytes_decode d = Inr d"
  shows "\<exists>token. encrypt_data C E d = Inr token \<and> decrypt_data C E' token = Inr d"
proof -
  from Fernet_roundtrip[OF ok t, of "fernet_keys s" d] obtain token where
    e: "Fernet_encrypt C E (fernet_keys s) d = Inr token"
    and dd: "Fernet_decrypt C (fernet_keys s) token = Inr d"
    by blast
  from Fernet_encrypt_b64[OF e] obtain raw where raw: "token = urlsafe_b64encode raw" by blast
  have "encrypt_data C E d = Inr token"
    by (simp add: encrypt_data_unfold[OF sk] e raw[symmetric] bytes_decode_b64[of raw, folded raw])
  moreover have "decrypt_data C E' token = Inr d"
    by (simp add: decrypt_data_unfold[OF sk' sk(2)] dd u)
  ultimately show ?thesis by blast
qed

subsection \<open>JSON of integer lists\<close>

declare digits.simps [simp del]

lemma digit_char_facts:
  assumes "d < 10"
  shows "is_digit (char_of (48 + d))" "digit_val (char_of (48 + d)) = d"
    "\<not> is_ws (char_of (48 + d))" "char_of (48 + d) \<noteq> CHR '']''"
    "char_of (48 + d) \<noteq> CHR '',''" "char_of (48 + d) \<noteq> CHR ''-''"
    "char_of (48 + d) = CHR ''0'' \<longleftrightarrow> d = 0"
    "(of_char (char_of (48 + d)) :: nat) < 128"
  using assms by (auto simp: is_digit_def digit_val_def is_ws_def char_of_eq_iff take_bit_eq_mod)

lemma run_digits:
  "0 < n \<Longrightarrow>
     json_run JOpen acc (digits n @ rest) = json_run (JNum False n) acc rest \<and>
     json_run JAfterComma acc (digits n @ rest) = json_run (JNum False n) acc rest \<and>
     json_run JMinus acc (digits n @ rest) = json_run (JNum True n) acc rest"
proof (induction n arbitrary: rest rule: digits.induct)
  case (1 n)
  show ?case
  proof (cases "n < 10")
    case True
    with 1(2) show ?thesis
      by (subst (1 2 3) digits.simps) (simp add: digit_char_facts)
  next
    case False
    then have pos: "0 < n div 10" by simp
    have m: "n mod 10 < 10" by simp
    have eq: "10 * (n div 10) + n mod 10 = n" by simp
    from 1(1)[OF False pos, of "char_of (48 + n mod 10) # rest"] False
    show ?thesis
      by (subst (1 2 3) digits.simps) (simp add: digit_char_facts[OF m] eq)
  qed
qed

lemma digits_0: "digits 0 = ''0''"
  by (subst digits.simps) (simp add: char_of_eq_iff take_bit_eq_mod)

lemma sep_facts:
  assumes "c = CHR '','' \<or> c = CHR '']''"
  shows "\<not> is_ws c" "\<not> is_digit c"
  using assms by (auto simp: is_ws_def is_digit_def)

lemma run_value0:
  assumes c: "c = CHR '','' \<or> c = CHR '']''"
    and S: "S = JOpen \<or> S = JAfterComma"
  shows "json_run S acc (''0'' @ c # rest)
          = json_run (if c = CHR '','' then JAfterComma else JClosed) (0 # acc) rest"
  using c S by (auto simp: is_ws_def)


lemma run_value_pos:
  assumes c: "c = CHR '','' \<or> c = CHR '']''"
    and S: "S = JOpen \<or> S = JAfterComma"
    and n: "0 < n"
  shows "json_run S acc (digits n @ c # rest)
          = json_run (if c = CHR '','' then JAfterComma else JClosed) (int n # acc) rest"
proof -
  have "json_run S acc (digits n @ c # rest) = json_run (JNum False n) acc (c # rest)"
    using run_digits[OF n, of acc "c # rest"] S by blast
  also have "\<dots> = json_run (if c = CHR '','' then JAfterComma else JClosed) (int n # acc) rest"
    using c by (auto simp: sep_facts signed_def)
  finally show ?thesis .
qed

lemma run_value_neg:
  assumes c: "c = CHR '','' \<or> c = CHR '']''"
    and S: "S = JOpen \<or> S = JAfterComma"
    and n: "0 < n"
  shows "json_run S acc (CHR ''-'' # digits n @ c # rest)
          = json_run (if c = CHR '','' then JAfterComma else JClosed) (- int n # acc) rest"
proof -
  have "json_run S acc (CHR ''-'' # digits n @ c # rest) = json_run JMinus acc (digits n @ c # rest)"
    using S by (auto simp: is_ws_def)
  also have "\<dots> = json_run (JNum True n) acc (c # rest)"
    using run_digits[OF n, of acc "c # rest"] by blast
  also have "\<dots> = json_run (if c = CHR '','' then JAfterComma else JClosed) (- int n # acc) rest"
    using c by (auto simp: sep_facts signed_def)
  finally show ?thesis .
qed

lemma run_value:
  assumes c: "c = CHR '','' \<or> c = CHR '']''"
    and S: "S = JOpen \<or> S = JAfterComma"
  shows "json_run S acc (str_int x @ c # rest)
          = json_run (if c = CHR '','' then JAfterComma else JClosed) (x # acc) rest"
proof -
  consider "x = 0" | "0 < x" | "x < 0" by linarith
  then show ?thesis
  proof cases
    case 1
    then have "str_int x = ''0''" by (simp add: str_int_def digits_0)
    with run_value0[OF c S, of acc rest] 1 show ?thesis by simp
  next
    case 2
    then have n: "0 < nat x" and s: "str_int x = digits (nat x)" by (simp_all add: str_int_def)
    from run_value_pos[OF c S n, of acc rest] 2 show ?thesis by (simp add: s)
  next
    case 3
    then have n: "0 < nat (- x)" and s: "str_int x = CHR ''-'' # digits (nat (- x))"
      by (simp_all add: str_int_def)
    from run_value_neg[OF c S n, of acc rest] 3 show ?thesis by (simp add: s)
  qed
qed


lemma run_join:
  assumes "xs \<noteq> []" "S = JOpen \<or> S = JAfterComma"
  shows "json_run S acc (join_ints xs @ '']'') = Some (rev acc @ xs)"
  using assms
proof (induction xs arbitrary: acc S rule: join_ints.induct)
  case 1
  then show ?case by simp
next
  case (2 x)
  from run_value[of "CHR '']''" S acc x "[]"] 2 show ?case by simp
next
  case (3 x y ys)
  have "json_run S acc (join_ints (x # y # ys) @ '']'')
        = json_run S acc (str_int x @ CHR '','' # CHR '' '' # join_ints (y # ys) @ '']'')"
    by simp
  also have "\<dots> = json_run JAfterComma (x # acc) (CHR '' '' # join_ints (y # ys) @ '']'')"
    using run_value[of "CHR '',''" S acc x] 3(3) by simp
  also have "\<dots> = json_run JAfterComma (x # acc) (join_ints (y # ys) @ '']'')"
    by (simp add: is_ws_def)
  also have "\<dots> = Some (rev (x # acc) @ y # ys)"
    by (rule 3(1)) simp_all
  finally show ?case by simp
qed

lemma json_roundtrip: "json_loads (json_dumps xs) = Inr xs"
proof (cases "xs = []")
  case True
  then show ?thesis by (simp add: json_loads_def json_dumps_def is_ws_def)
next
  case False
  from run_join[OF False, of JOpen "[]"] show ?thesis
    by (simp add: json_loads_def json_dumps_def is_ws_def)
qed

lemma digits_ascii: "c \<in> set (digits n) \<Longrightarrow> (of_char c :: nat) < 128"
proof (induction n arbitrary: c rule: digits.induct)
  case (1 n)
  have m: "n mod 10 < 10" by simp
  show ?case
  proof (cases "n < 10")
    case True
    with 1(2) show ?thesis
      by (subst (asm) digits.simps) (auto simp: digit_char_facts)
  next
    case False
    with 1 show ?thesis
      by (subst (asm) (2) digits.simps) (auto simp: digit_char_facts[OF m])
  qed
qed

lemma str_int_ascii: "c \<in> set (str_int x) \<Longrightarrow> (of_char c :: nat) < 128"
  by (auto simp: str_int_def dest: digits_ascii split: if_splits)

lemma join_ints_ascii: "c \<in> set (join_ints xs) \<Longrightarrow> (of_char c :: nat) < 128"
  by (induction xs arbitrary: c rule: join_ints.induct) (auto dest: str_int_ascii)

lemma json_dumps_ascii: "c \<in> set (json_dumps xs) \<Longrightarrow> (of_char c :: nat) < 128"
  by (auto simp: json_dumps_def dest: join_ints_ascii)

subsection \<open>The key codec\<close>

lemma demo_crypto_ok: "crypto_ok demo_crypto"
  by (simp add: crypto_ok_def demo_crypto_def)

lemma demo_env_ok:
  "SECRET_KEY demo_env = Some ''astral-secret''" "''astral-secret'' \<noteq> []"
  "time_now demo_env < 2 ^ 42" "time_now demo_env < 2 ^ 64"
  by (simp_all add: demo_env_def)

lemma decrypt_data_empty: "decrypt_data C E [] \<noteq> Inr d"
  by (auto simp: decrypt_data_def Fernet_decrypt_def Let_def split: option.splits sum.splits)

lemma bytes_decode_json: "bytes_decode (json_dumps xs) = Inr (json_dumps xs)"
  by (rule bytes_decode_ascii) (rule json_dumps_ascii)

lemma star_keys_roundtrip:
  assumes ok: "crypto_ok C" and sk: "SECRET_KEY E = Some s" "s \<noteq> []"
    and t: "time_now E < 2 ^ 64" and sk': "SECRET_KEY E' = Some s"
  shows "\<exists>token. encrypt_data C E (json_dumps keys) = Inr token
           \<and> decrypt_data C E' token = Inr (json_dumps keys)
           \<and> get_star_keys C E' (Some token) = keys"
proof -
  from codec_roundtrip[OF ok sk t sk' bytes_decode_json] obtain token where
    e: "encrypt_data C E (json_dumps keys) = Inr token"
    and d: "decrypt_data C E' token = Inr (json_dumps keys)"
    by blast
  from d have ne: "token \<noteq> []" using decrypt_data_empty by blast
  have "get_star_keys C E' (Some token) = keys"
    by (simp add: get_star_keys_def ne d json_roundtrip)
  with e d show ?thesis by blast
qed

lemma json_dumps_123456: "json_dumps [1, 2, 3, 4, 5, 6] = ''[1, 2, 3, 4, 5, 6]''"
  by (simp add: json_dumps_def str_int_def digits.simps char_of_eq_iff take_bit_eq_mod)

text \<open>
  Claim C6. With the secret configured, decrypting what the codec encrypted gives the
  plaintext back: for every list \<open>c\<close> of integers (in particular every six-symbol
  combination), encryption of \<open>json.dumps(c)\<close> under what one invocation reads (\<open>E\<close>)
  succeeds, decryption under what a later invocation reads (\<open>E'\<close>, the same secret) returns
  \<open>json.dumps(c)\<close>, and \<open>get_star_keys\<close> after \<open>set_star_keys(c)\<close> returns \<open>c\<close>, on a
  draw and on a ticket. The primitives are any that satisfy \<open>crypto_ok\<close>; the clock
  is below \<open>2 ^ 64\<close> seconds, beyond which the timestamp of a token cannot be written.
\<close>

theorem codec_round_trip:
  assumes "crypto_ok C" and "SECRET_KEY E = Some s" and "s \<noteq> []"
    and "time_now E < 2 ^ 64" and "SECRET_KEY E' = Some s"
  shows "\<exists>token.
           encrypt_data C E (json_dumps c) = Inr token
         \<and> decrypt_data C E' token = Inr (json_dumps c)
         \<and> Draw_set_star_keys C E d c = Inr (d\<lparr>star_keys := token\<rparr>)
         \<and> Draw_get_star_keys C E' (d\<lparr>star_keys := token\<rparr>) = c
         \<and> ForgedKey_set_star_keys C E fk c = Inr (fk\<lparr>fk_star_keys := Some token\<rparr>)
         \<and> ForgedKey_get_star_keys C E' (fk\<lparr>fk_star_keys := Some token\<rparr>) = c"
proof -
  from star_keys_roundtrip[OF assms, of c] obtain token where
    e: "encrypt_data C E (json_dumps c) = Inr token"
    and dd: "decrypt_data C E' token = Inr (json_dumps c)"
    and g: "get_star_keys C E' (Some token) = c"
    by blast
  show ?thesis
    using e dd g
    by (intro exI[of _ token])
       (simp add: Draw_set_star_keys_def Draw_get_star_keys_def
          ForgedKey_set_star_keys_def ForgedKey_get_star_keys_def)
qed

theorem codec_round_trip_witness:
  "\<exists>token.
     Draw_set_star_keys demo_crypto demo_env demo_draw [1, 2, 3, 4, 5, 6]
       = Inr (demo_draw\<lparr>star_keys := token\<rparr>)
   \<and> decrypt_data demo_crypto demo_env token = Inr ''[1, 2, 3, 4, 5, 6]''
   \<and> Draw_get_star_keys demo_crypto demo_env (demo_draw\<lparr>star_keys := token\<rparr>) = [1, 2, 3, 4, 5, 6]"
proof -
  from codec_round_trip[OF demo_crypto_ok demo_env_ok(1,2,4) demo_env_ok(1),
      of "[1, 2, 3, 4, 5, 6]" demo_draw demo_ticket]
  show ?thesis unfolding json_dumps_123456 by blast
qed

lemma token_of_ok:
  assumes "SECRET_KEY E = Some s" "s \<noteq> []" "time_now E < 2 ^ 64" "SECRET_KEY E' = Some s"
  shows "encrypt_data demo_crypto E (json_dumps keys) = Inr (token_of E keys)"
    and "get_star_keys demo_crypto E' (Some (token_of E keys)) = keys"
proof -
  from star_keys_roundtrip[OF demo_crypto_ok assms, of keys] obtain token where
    e: "encrypt_data demo_crypto E (json_dumps keys) = Inr token"
    and g: "get_star_keys demo_crypto E' (Some token) = keys"
    by blast
  from e have t: "token_of E keys = token" by (simp add: token_of_def)
  from e t show "encrypt_data demo_crypto E (json_dumps keys) = Inr (token_of E keys)" by simp
  from g t show "get_star_keys demo_crypto E' (Some (token_of E keys)) = keys" by simp
qed

lemma demo_token:
  "encrypt_data demo_crypto demo_env (json_dumps keys) = Inr (token_of demo_env keys)"
  "get_star_keys demo_crypto demo_env (Some (token_of demo_env keys)) = keys"
  using token_of_ok[OF demo_env_ok(1,2,4) demo_env_ok(1)] by blast+

lemma demo_ticket_keys:
  "ForgedKey_get_star_keys demo_crypto demo_env
     (demo_ticket\<lparr>fk_star_keys := Some (token_of demo_env keys)\<rparr>) = keys"
  by (simp add: ForgedKey_get_star_keys_def demo_token)

subsection \<open>Rarity\<close>

lemma length_filter_eq_iff: "length (filter P xs) = length xs \<longleftrightarrow> (\<forall>x\<in>set xs. P x)"
proof (induction xs)
  case Nil
  then show ?case by simp
next
  case (Cons x xs)
  show ?case
  proof (cases "P x")
    case True
    with Cons show ?thesis by simp
  next
    case False
    have "length (filter P xs) < Suc (length xs)"
      by (rule le_imp_less_Suc) (rule length_filter_le)
    with False show ?thesis by simp
  qed
qed

lemma card_set_eq_length: "card (set xs) = length xs \<longleftrightarrow> distinct xs"
  using card_distinct distinct_card by metis

lemma card_set_one: "xs \<noteq> [] \<Longrightarrow> card (set xs) = 1 \<longleftrightarrow> (\<forall>x\<in>set xs. x = hd xs)"
proof
  assume ne: "xs \<noteq> []" and c: "card (set xs) = 1"
  then obtain a where a: "set xs = {a}" by (auto simp: card_1_singleton_iff)
  with ne have "hd xs = a" using hd_in_set by fastforce
  with a show "\<forall>x\<in>set xs. x = hd xs" by simp
next
  assume ne: "xs \<noteq> []" and h: "\<forall>x\<in>set xs. x = hd xs"
  then have "set xs = {hd xs}" using hd_in_set by fastforce
  then show "card (set xs) = 1" by simp
qed

lemma calculate_rarity_six:
  assumes len: "length (ForgedKey_get_star_keys C E fk) = 6"
  shows "calculate_rarity C E fk =
     (let keys = ForgedKey_get_star_keys C E fk in
      if distinct keys then ''Rare''
      else if (\<forall>k\<in>set keys. k mod 2 = 0) then ''Epic''
      else if (\<forall>k\<in>set keys. k mod 2 \<noteq> 0) then ''Epic''
      else if (\<forall>k\<in>set keys. k = hd keys) then ''Legendary''
      else ''Common'')"
proof -
  define keys where "keys = ForgedKey_get_star_keys C E fk"
  have l: "length keys = 6" and ne: "keys \<noteq> []" using len by (auto simp: keys_def)
  have d: "card (set keys) = 6 \<longleftrightarrow> distinct keys"
    using card_set_eq_length[of keys] l by simp
  have ev: "length (filter (\<lambda>k. k mod 2 = 0) keys) = 6 \<longleftrightarrow> (\<forall>k\<in>set keys. k mod 2 = 0)"
    using length_filter_eq_iff[of "\<lambda>k. k mod 2 = 0" keys] l by simp
  have od: "length (filter (\<lambda>k. k mod 2 \<noteq> 0) keys) = 6 \<longleftrightarrow> (\<forall>k\<in>set keys. k mod 2 \<noteq> 0)"
    using length_filter_eq_iff[of "\<lambda>k. k mod 2 \<noteq> 0" keys] l by simp
  have one: "card (set keys) = 1 \<longleftrightarrow> (\<forall>k\<in>set keys. k = hd keys)"
    by (rule card_set_one[OF ne])
  show ?thesis
    unfolding calculate_rarity_def keys_def[symmetric] Let_def
    by (simp only: ne d ev od one if_False)
qed

lemma identical_same_parity:
  fixes keys :: "int list"
  assumes "\<forall>k\<in>set keys. k = hd keys"
  shows "(\<forall>k\<in>set keys. k mod 2 = 0) \<or> (\<forall>k\<in>set keys. k mod 2 \<noteq> 0)"
  using assms by metis

text \<open>
  Claim C8. For a ticket whose stored combination reads back as six symbols,
  \<open>calculate_rarity\<close> is the priority chain: pairwise distinct gives Rare; else all even
  gives Epic; else all odd gives Epic; else all identical gives Legendary; else Common.
  Six identical symbols are all even or all odd, so such a ticket is Epic, and no
  six-symbol ticket is Legendary.
\<close>

theorem rarity_priority_order:
  assumes "length (ForgedKey_get_star_keys C E fk) = 6"
  shows "(let keys = ForgedKey_get_star_keys C E fk in
          calculate_rarity C E fk =
            (if distinct keys then ''Rare''
             else if (\<forall>k\<in>set keys. even k) then ''Epic''
             else if (\<forall>k\<in>set keys. odd k) then ''Epic''
             else if (\<forall>k\<in>set keys. k = hd keys) then ''Legendary''
             else ''Common'')
        \<and> ((\<forall>k\<in>set keys. k = hd keys) \<longrightarrow> calculate_rarity C E fk = ''Epic'')
        \<and> calculate_rarity C E fk \<noteq> ''Legendary'')"
proof -
  define keys where "keys = ForgedKey_get_star_keys C E fk"
  have l: "length keys = 6" using assms by (simp add: keys_def)
  have eo: "\<And>k::int. even k \<longleftrightarrow> k mod 2 = 0" "\<And>k::int. odd k \<longleftrightarrow> k mod 2 \<noteq> 0"
    by presburger+
  have r: "calculate_rarity C E fk =
     (if distinct keys then ''Rare''
      else if (\<forall>k\<in>set keys. k mod 2 = 0) then ''Epic''
      else if (\<forall>k\<in>set keys. k mod 2 \<noteq> 0) then ''Epic''
      else if (\<forall>k\<in>set keys. k = hd keys) then ''Legendary''
      else ''Common'')"
    using calculate_rarity_six[OF assms] by (simp add: keys_def Let_def)
  have nd: "(\<forall>k\<in>set keys. k = hd keys) \<Longrightarrow> \<not> distinct keys"
  proof
    assume a: "\<forall>k\<in>set keys. k = hd keys" and d: "distinct keys"
    from l have ne: "keys \<noteq> []" by auto
    from a have "card (set keys) = 1" using card_set_one[OF ne] by blast
    moreover from d l have "card (set keys) = 6" by (simp add: distinct_card)
    ultimately show False by simp
  qed
  have a: "calculate_rarity C E fk =
            (if distinct keys then ''Rare''
             else if (\<forall>k\<in>set keys. even k) then ''Epic''
             else if (\<forall>k\<in>set keys. odd k) then ''Epic''
             else if (\<forall>k\<in>set keys. k = hd keys) then ''Legendary''
             else ''Common'')"
    unfolding r eo ..
  have b: "(\<forall>k\<in>set keys. k = hd keys) \<longrightarrow> calculate_rarity C E fk = ''Epic''"
  proof
    assume h: "\<forall>k\<in>set keys. k = hd keys"
    from identical_same_parity[OF h] nd[OF h] show "calculate_rarity C E fk = ''Epic''"
      unfolding r by auto
  qed
  have c: "calculate_rarity C E fk \<noteq> ''Legendary''"
  proof (cases "\<forall>k\<in>set keys. k = hd keys")
    case True
    with b show ?thesis by simp
  next
    case False
    then show ?thesis unfolding r by auto
  qed
  from a b c show ?thesis unfolding keys_def[symmetric] Let_def by blast
qed

theorem rarity_priority_order_witness:
  "calculate_rarity demo_crypto demo_env
     (demo_ticket\<lparr>fk_star_keys := Some (token_of demo_env [7, 7, 7, 7, 7, 7])\<rparr>) = ''Epic''"
proof -
  let ?fk = "demo_ticket\<lparr>fk_star_keys := Some (token_of demo_env [7, 7, 7, 7, 7, 7])\<rparr>"
  have k: "ForgedKey_get_star_keys demo_crypto demo_env ?fk = [7, 7, 7, 7, 7, 7]"
    by (rule demo_ticket_keys)
  have "length (ForgedKey_get_star_keys demo_crypto demo_env ?fk) = 6"
    by (simp add: k)
  from rarity_priority_order[OF this] show ?thesis
    by (simp add: k Let_def)
qed

text \<open>
  Claim C9, as amended. The combination \<open>[1, 3, 1, 3, 1, 3]\<close> is not pairwise distinct and
  not all even, and all six symbols are odd: \<open>calculate_rarity\<close> classifies it as Epic
  (not as Common).
\<close>

theorem rarity_131313:
  assumes "ForgedKey_get_star_keys C E fk = [1, 3, 1, 3, 1, 3]"
  shows "calculate_rarity C E fk = ''Epic''"
  by (simp add: calculate_rarity_def assms Let_def card_insert_if)

theorem rarity_131313_witness:
  "calculate_rarity demo_crypto demo_env
     (demo_ticket\<lparr>fk_star_keys := Some (token_of demo_env [1, 3, 1, 3, 1, 3])\<rparr>) = ''Epic''"
  by (rule rarity_131313) (rule demo_ticket_keys)

text \<open>Claim C9 as stated fails: the ticket holding \<open>[1, 3, 1, 3, 1, 3]\<close> is not Common.\<close>

theorem rarity_131313_not_common:
  "calculate_rarity demo_crypto demo_env
     (demo_ticket\<lparr>fk_star_keys := Some (token_of demo_env [1, 3, 1, 3, 1, 3])\<rparr>) \<noteq> ''Common''"
proof -
  have "ForgedKey_get_star_keys demo_crypto demo_env
     (demo_ticket\<lparr>fk_star_keys := Some (token_of demo_env [1, 3, 1, 3, 1, 3])\<rparr>) = [1, 3, 1, 3, 1, 3]"
    by (rule demo_ticket_keys)
  then show ?thesis
    by (simp add: calculate_rarity_def Let_def card_insert_if)
qed

subsection \<open>Views\<close>

lemma process_draw_rejects:
  assumes "draws db i = Some d"
    and "status d \<noteq> ACTIVE \<or> int (time_now E) < draw_datetime d"
  shows "process_draw C E req db i =
           (if \<not> authenticated req then RedirectToLogin
            else if http_method req \<noteq> ''POST'' then MethodNotAllowed
            else if \<not> is_staff req then JsonFailure AdminAccessRequired
            else JsonFailure DrawCannotBeProcessed, db)"
  using assms by (auto simp: process_draw_def)

lemma map_winner_none:
  assumes "map_winner C E db d = Inr (None, d1, db1)"
  shows "db1 = db"
  using assms
  by (auto simp: map_winner_def Let_def split: if_splits list.splits sum.splits)

lemma process_draw_success:
  assumes "draws db i = Some d" and "process_draw C E req db i = (JsonSuccess w, db')"
  shows "db' = db\<lparr>draws := (draws db)(i \<mapsto> d\<lparr>status := ENDED\<rparr>)\<rparr>"
proof -
  from assms obtain d1 db1 where
    mw: "map_winner C E db d = Inr (None, d1, db1)"
    and u: "db' = update_draw db1 i (\<lambda>row. row\<lparr>status := ENDED\<rparr>)"
    by (auto simp: process_draw_def decimal_times_float_def
          split: if_splits sum.splits option.splits prod.splits)
  from map_winner_none[OF mw] have "db1 = db" .
  with u assms(1) show ?thesis by (simp add: update_draw_def)
qed

lemma process_draw_no_winner:
  assumes "authenticated req" and "http_method req = ''POST''" and "is_staff req"
    and "draws db i = Some d" and "status d = ACTIVE"
    and "\<not> int (time_now E) < draw_datetime d"
    and "map_winner C E db d = Inr (None, d1, db1)"
  shows "process_draw C E req db i
           = (JsonSuccess None, update_draw db1 i (\<lambda>row. row\<lparr>status := ENDED\<rparr>))"
  using assms by (simp add: process_draw_def)

text \<open>
  Claim C5. For a draw that is not ACTIVE or whose scheduled datetime is still in the
  future, \<open>process_draw\<close> rejects: the response is the structured failure "Draw cannot be
  processed" for a privileged POST (and the redirect, the 405 or "Admin access required"
  for the callers turned away before the guard), and the database, with the draw's row
  and status, is unchanged. In particular, after an invocation that succeeded the draw
  is ENDED, and every further invocation on it, by any caller at any time, is rejected in
  this way and changes nothing.
\<close>

theorem process_draw_guard:
  assumes "draws db i = Some d"
  shows "(status d \<noteq> ACTIVE \<or> int (time_now E) < draw_datetime d \<longrightarrow>
            process_draw C E req db i =
              (if \<not> authenticated req then RedirectToLogin
               else if http_method req \<noteq> ''POST'' then MethodNotAllowed
               else if \<not> is_staff req then JsonFailure AdminAccessRequired
               else JsonFailure DrawCannotBeProcessed, db))
       \<and> (\<forall>w db'. process_draw C E req db i = (JsonSuccess w, db') \<longrightarrow>
            draws db' i = Some (d\<lparr>status := ENDED\<rparr>)
            \<and> (\<forall>E' req'. process_draw C E' req' db' i =
                  (if \<not> authenticated req' then RedirectToLogin
                   else if http_method req' \<noteq> ''POST'' then MethodNotAllowed
                   else if \<not> is_staff req' then JsonFailure AdminAccessRequired
                   else JsonFailure DrawCannotBeProcessed, db')))"
proof (intro conjI impI allI)
  assume "status d \<noteq> ACTIVE \<or> int (time_now E) < draw_datetime d"
  with assms show "process_draw C E req db i =
              (if \<not> authenticated req then RedirectToLogin
               else if http_method req \<noteq> ''POST'' then MethodNotAllowed
               else if \<not> is_staff req then JsonFailure AdminAccessRequired
               else JsonFailure DrawCannotBeProcessed, db)"
    by (rule process_draw_rejects)
next
  fix w db'
  assume s: "process_draw C E req db i = (JsonSuccess w, db')"
  from process_draw_success[OF assms s]
  show "draws db' i = Some (d\<lparr>status := ENDED\<rparr>)" by simp
next
  fix w db' E' req'
  assume s: "process_draw C E req db i = (JsonSuccess w, db')"
  from process_draw_success[OF assms s]
  have r: "draws db' i = Some (d\<lparr>status := ENDED\<rparr>)" by simp
  show "process_draw C E' req' db' i =
                  (if \<not> authenticated req' then RedirectToLogin
                   else if http_method req' \<noteq> ''POST'' then MethodNotAllowed
                   else if \<not> is_staff req' then JsonFailure AdminAccessRequired
                   else JsonFailure DrawCannotBeProcessed, db')"
    by (rule process_draw_rejects[OF r]) simp
qed

theorem process_draw_guard_witness:
  "process_draw demo_crypto demo_env demo_request (demo_db (demo_draw\<lparr>status := ENDED\<rparr>) []) 1
     = (JsonFailure DrawCannotBeProcessed, demo_db (demo_draw\<lparr>status := ENDED\<rparr>) [])
   \<and> process_draw demo_crypto demo_env demo_request (demo_db demo_draw []) 1
     = (JsonSuccess None, demo_db (demo_draw\<lparr>status := ENDED\<rparr>) [])"
proof -
  let ?db = "demo_db demo_draw []"
  let ?db' = "demo_db (demo_draw\<lparr>status := ENDED\<rparr>) []"
  have k: "Draw_get_star_keys demo_crypto demo_env demo_draw = []"
    by (simp add: Draw_get_star_keys_def get_star_keys_def demo_draw_def)
  have mw: "map_winner demo_crypto demo_env ?db demo_draw = Inr (None, demo_draw, ?db)"
    by (simp add: map_winner_def k)
  have a: "draws ?db 1 = Some demo_draw"
    by (simp add: demo_db_def demo_draw_def)
  have g: "status demo_draw = ACTIVE" "\<not> int (time_now demo_env) < draw_datetime demo_draw"
    by (simp_all add: demo_draw_def demo_env_def)
  have u: "update_draw ?db 1 (\<lambda>row. row\<lparr>status := ENDED\<rparr>) = ?db'"
    by (simp add: update_draw_def demo_db_def demo_draw_def)
  have r: "authenticated demo_request" "http_method demo_request = ''POST''" "is_staff demo_request"
    by (simp_all add: demo_request_def)
  have first: "process_draw demo_crypto demo_env demo_request ?db 1 = (JsonSuccess None, ?db')"
    using process_draw_no_winner[OF r a g mw] unfolding u .
  from process_draw_guard[OF a, of demo_env demo_crypto demo_request] first
  have "process_draw demo_crypto demo_env demo_request ?db' 1
          = (if \<not> authenticated demo_request then RedirectToLogin
             else if http_method demo_request \<noteq> ''POST'' then MethodNotAllowed
             else if \<not> is_staff demo_request then JsonFailure AdminAccessRequired
             else JsonFailure DrawCannotBeProcessed, ?db')"
    by blast
  with first show ?thesis by (simp add: demo_request_def)
qed

text \<open>
  Claim C10. For a draw whose status is not ENDED, the response of \<open>draw_detail\<close> does not
  depend on the stored winning combination: replacing \<open>star_keys\<close> by any other value
  gives the same response. A response carries \<open>winning_keys\<close> only when the status is
  ENDED, and then they are the decrypted keys of the draw.
\<close>

theorem draw_detail_hides_keys:
  assumes "draws db i = Some d"
  shows "(status d \<noteq> ENDED \<longrightarrow>
            (\<forall>s. draw_detail C E req (db\<lparr>draws := (draws db)(i \<mapsto> d\<lparr>star_keys := s\<rparr>)\<rparr>) i
                   = draw_detail C E req db i))
       \<and> (\<forall>dd. draw_detail C E req db i = DetailJson dd \<longrightarrow>
             dd_winning_keys dd =
               (if status d = ENDED then Some (Draw_get_star_keys C E d) else None))"
  using assms by (auto simp: draw_detail_def can_participate_def Let_def)

theorem draw_detail_hides_keys_witness:
  "draw_detail demo_crypto demo_env demo_request
      (demo_db (demo_draw\<lparr>star_keys := token_of demo_env [6, 5, 4, 3, 2, 1]\<rparr>) []) 1
   = draw_detail demo_crypto demo_env demo_request
      (demo_db (demo_draw\<lparr>star_keys := token_of demo_env [1, 2, 3, 4, 5, 6]\<rparr>) []) 1"
proof -
  let ?d = "demo_draw\<lparr>star_keys := token_of demo_env [1, 2, 3, 4, 5, 6]\<rparr>"
  let ?db = "demo_db ?d []"
  have a: "draws ?db 1 = Some ?d" by (simp add: demo_db_def demo_draw_def)
  have b: "status ?d \<noteq> ENDED" by (simp add: demo_draw_def)
  have c: "?db\<lparr>draws := (draws ?db)(1 \<mapsto> ?d\<lparr>star_keys := token_of demo_env [6, 5, 4, 3, 2, 1]\<rparr>)\<rparr>
           = demo_db (demo_draw\<lparr>star_keys := token_of demo_env [6, 5, 4, 3, 2, 1]\<rparr>) []"
    by (simp add: demo_db_def demo_draw_def)
  from draw_detail_hides_keys[OF a, of demo_crypto demo_env demo_request] b
  have "draw_detail demo_crypto demo_env demo_request
          (?db\<lparr>draws := (draws ?db)(1 \<mapsto> ?d\<lparr>star_keys := token_of demo_env [6, 5, 4, 3, 2, 1]\<rparr>)\<rparr>) 1
        = draw_detail demo_crypto demo_env demo_request ?db 1"
    by blast
  then show ?thesis unfolding c .
qed

subsection \<open>The marker of a token and the guard of \<open>save\<close>\<close>

lemma be_bytes_numeral:
  "be_bytes (numeral v) t = char_of (t div 256 ^ pred_numeral v) # be_bytes (pred_numeral v) t"
  by (simp add: numeral_eq_Suc)

lemma be_bytes_8_head:
  "be_bytes 8 t = char_of (t div 256 ^ 7) # char_of (t div 256 ^ 6) # char_of (t div 256 ^ 5)
                  # char_of (t div 256 ^ 4) # char_of (t div 256 ^ 3) # be_bytes 3 t"
  by (simp only: be_bytes_numeral pred_numeral_simps BitM.simps)

lemma b64_char_values: "b64_char 32 = CHR ''g''" "b64_char 0 = CHR ''A''"
  by (simp_all add: b64_char_def b64_alphabet_def)

lemma b64_first_group:
  "take 5 (urlsafe_b64encode (a # b # c # d # e # f # rest))
     = [b64_char (of_char a div 4), b64_char ((of_char a mod 4) * 16 + of_char b div 16),
        b64_char ((of_char b mod 16) * 4 + of_char c div 64), b64_char (of_char c mod 64),
        b64_char (of_char d div 4)]"
  by (simp add: Let_def)

lemma timestamp_high_bytes:
  fixes t :: nat
  assumes "t < 2 ^ 42"
  shows "t div 256 ^ 7 = 0" "t div 256 ^ 6 = 0" "t div 256 ^ 5 < 4"
proof -
  have t: "t < 4398046511104" using assms by simp
  show "t div 256 ^ 7 = 0" using t by simp
  show "t div 256 ^ 6 = 0" using t by simp
  have "t < 4 * 256 ^ 5" using t by simp
  then show "t div 256 ^ 5 < 4" by (simp only: less_mult_imp_div_less)
qed

lemma token_prefix:
  assumes "t < 2 ^ 42"
  shows "take 5 (urlsafe_b64encode (char_of (0x80 :: nat) # be_bytes 8 t @ rest)) = ''gAAAA''"
proof -
  note z = timestamp_high_bytes[OF assms]
  have c0: "(of_char (char_of (0 :: nat)) :: nat) = 0"
    and c80: "(of_char (char_of (0x80 :: nat)) :: nat) = 128"
    by simp_all
  have "(of_char (char_of (t div 256 ^ 5)) :: nat) = t div 256 ^ 5"
    using z(3) by (simp only: of_char_of) simp
  then have m: "(of_char (char_of (t div 256 ^ 5)) :: nat) div 4 = 0"
    using z(3) by simp
  have v: "(128 :: nat) div 4 = 32" "(128 :: nat) mod 4 * 16 + 0 div 16 = 0"
    "(0 :: nat) mod 16 * 4 + 0 div 64 = 0" "(0 :: nat) mod 64 = 0"
    by simp_all
  show ?thesis
    unfolding be_bytes_8_head append_Cons b64_first_group z(1,2) c0 c80 m v b64_char_values
    by (rule refl)
qed

lemma encrypt_data_prefix:
  assumes "encrypt_data C E data = Inr token" and "time_now E < 2 ^ 42"
  shows "startswith token ''gAAAA''"
proof -
  from assms(1) obtain rest where
    t: "token = urlsafe_b64encode (char_of (0x80 :: nat) # be_bytes 8 (time_now E) @ rest)"
    by (auto simp: encrypt_data_def Fernet_encrypt_def bytes_decode_def Let_def
          split: option.splits sum.splits if_splits)
  have l: "length ''gAAAA'' = 5" by simp
  show ?thesis
    unfolding startswith_def l t by (rule token_prefix[OF assms(2)])
qed

lemma token_nonempty: "startswith token ''gAAAA'' \<Longrightarrow> token \<noteq> []"
  by (auto simp: startswith_def)

text \<open>
  Claim C7. A value that the codec produced (at any clock reading below \<open>2 ^ 42\<close>
  seconds, the year 141338) starts with the marker \<open>gAAAA\<close>, so saving an entity whose
  secret field holds it encrypts nothing: \<open>Draw.save\<close> writes the draw with the same
  \<open>star_keys\<close> and returns the same object, and \<open>UserWallet.save\<close> leaves \<open>private_key\<close>
  as it is. The object after the save is the object before it, so the statement applies to
  every later save as well: the stored winning combination stays what \<open>set_star_keys\<close>
  made it at creation.
\<close>

theorem save_keeps_ciphertext:
  assumes "encrypt_data C E0 data = Inr token" and "time_now E0 < 2 ^ 42"
  shows "startswith token ''gAAAA''
       \<and> Draw_save C E db (d\<lparr>star_keys := token\<rparr>)
           = Inr (d\<lparr>star_keys := token\<rparr>,
                  db\<lparr>draws := (draws db)(draw_id d \<mapsto> d\<lparr>star_keys := token\<rparr>)\<rparr>)
       \<and> UserWallet_save C E (w\<lparr>private_key := Some token\<rparr>) = Inr (w\<lparr>private_key := Some token\<rparr>)"
proof -
  have p: "startswith token ''gAAAA''" by (rule encrypt_data_prefix[OF assms])
  then have ne: "token \<noteq> []" by (rule token_nonempty)
  from p ne show ?thesis
    by (simp add: Draw_save_def UserWallet_save_def)
qed

theorem save_keeps_ciphertext_witness:
  "Draw_save demo_crypto demo_env (demo_db demo_draw [])
       (demo_draw\<lparr>star_keys := token_of demo_env [1, 2, 3, 4, 5, 6]\<rparr>)
     = Inr (demo_draw\<lparr>star_keys := token_of demo_env [1, 2, 3, 4, 5, 6]\<rparr>,
            demo_db (demo_draw\<lparr>star_keys := token_of demo_env [1, 2, 3, 4, 5, 6]\<rparr>) [])"
proof -
  have e: "encrypt_data demo_crypto demo_env (json_dumps [1, 2, 3, 4, 5, 6])
             = Inr (token_of demo_env [1, 2, 3, 4, 5, 6])"
    by (rule demo_token)
  from save_keeps_ciphertext[OF e demo_env_ok(3),
      where E = demo_env and db = "demo_db demo_draw []" and d = demo_draw]
  show ?thesis by (simp add: demo_db_def demo_draw_def)
qed

subsection \<open>Fresh randomness in every token\<close>

lemma b64encode_inj: "urlsafe_b64encode xs = urlsafe_b64encode ys \<Longrightarrow> xs = ys"
  by (metis b64_roundtrip option.inject)

lemma be_bytes_inj: "be_bytes k n = be_bytes k m \<Longrightarrow> n mod 256 ^ k = m mod 256 ^ k"
proof (induction k)
  case 0
  then show ?case by simp
next
  case (Suc k)
  from Suc.prems have h: "(n div 256 ^ k) mod 256 = (m div 256 ^ k) mod 256"
    and t: "be_bytes k n = be_bytes k m"
    by simp_all
  from Suc.IH[OF t] have l: "n mod 256 ^ k = m mod 256 ^ k" .
  have "n mod (256 ^ k * 256) = 256 ^ k * (n div 256 ^ k mod 256) + n mod 256 ^ k"
    by (rule mod_mult2_eq)
  moreover have "m mod (256 ^ k * 256) = 256 ^ k * (m div 256 ^ k mod 256) + m mod 256 ^ k"
    by (rule mod_mult2_eq)
  ultimately have "n mod (256 ^ k * 256) = m mod (256 ^ k * 256)"
    using h l by simp
  then show ?case by (simp add: mult.commute)
qed

lemma iv_bytes_inj:
  fixes a b :: "128 word"
  assumes "be_bytes 16 (unat a) = be_bytes 16 (unat b)"
  shows "a = b"
proof -
  have p: "(256 :: nat) ^ 16 = 2 ^ 128" by simp
  have "unat a < 2 ^ 128" "unat b < 2 ^ 128"
    using unsigned_less[of a, where ?'a = nat] unsigned_less[of b, where ?'a = nat] by simp_all
  then have "unat a mod 256 ^ 16 = unat a" "unat b mod 256 ^ 16 = unat b"
    unfolding p by simp_all
  with be_bytes_inj[OF assms] have "unat a = unat b" by simp
  then show ?thesis by (rule word_unat_eq_iff[THEN iffD2])
qed

lemma encrypt_data_raw:
  assumes "encrypt_data C E data = Inr token"
  shows "\<exists>rest. token = urlsafe_b64encode
            (char_of (0x80 :: nat) # be_bytes 8 (time_now E) @ be_bytes 16 (unat (urandom16 E)) @ rest)"
  using assms
  by (auto simp: encrypt_data_def Fernet_encrypt_def bytes_decode_def Let_def
        split: option.splits sum.splits if_splits)

lemma encrypt_data_fresh_iv:
  assumes "encrypt_data C E data = Inr t1" and "encrypt_data C E' data' = Inr t2"
    and "urandom16 E \<noteq> urandom16 E'"
  shows "t1 \<noteq> t2"
proof
  assume eq: "t1 = t2"
  from encrypt_data_raw[OF assms(1)] obtain r1 where
    a: "t1 = urlsafe_b64encode
          (char_of (0x80 :: nat) # be_bytes 8 (time_now E) @ be_bytes 16 (unat (urandom16 E)) @ r1)"
    by blast
  from encrypt_data_raw[OF assms(2)] obtain r2 where
    b: "t2 = urlsafe_b64encode
          (char_of (0x80 :: nat) # be_bytes 8 (time_now E') @ be_bytes 16 (unat (urandom16 E')) @ r2)"
    by blast
  from eq a b have
    "be_bytes 8 (time_now E) @ be_bytes 16 (unat (urandom16 E)) @ r1
       = be_bytes 8 (time_now E') @ be_bytes 16 (unat (urandom16 E')) @ r2"
    using b64encode_inj by fastforce
  then have "be_bytes 16 (unat (urandom16 E)) @ r1 = be_bytes 16 (unat (urandom16 E')) @ r2"
    by simp
  then have "be_bytes 16 (unat (urandom16 E)) = be_bytes 16 (unat (urandom16 E'))"
    by simp
  then have "urandom16 E = urandom16 E'" by (rule iv_bytes_inj)
  with assms(3) show False by simp
qed

text \<open>
  Claim C1 does not hold of the code. Two invocations of \<open>encrypt_data\<close> on the JSON of the
  same combination, under the same secret and in the same second, that draw different
  bytes from \<open>os.urandom\<close> return different strings, although both read back as the
  combination. With the first stored in the draw and the second in a ticket of that draw,
  \<open>map_winner\<close>, which compares the stored strings, finds no winner and changes nothing.
\<close>

theorem encryption_not_deterministic:
  assumes "crypto_ok C" and "SECRET_KEY E = Some s" and "s \<noteq> []" and "time_now E < 2 ^ 64"
    and "iv \<noteq> urandom16 E" and "length c = 6"
  shows "\<exists>t1 t2.
           encrypt_data C E (json_dumps c) = Inr t1
         \<and> encrypt_data C (E\<lparr>urandom16 := iv\<rparr>) (json_dumps c) = Inr t2
         \<and> t1 \<noteq> t2
         \<and> Draw_get_star_keys C E (d\<lparr>star_keys := t1\<rparr>) = c
         \<and> ForgedKey_get_star_keys C E (fk\<lparr>fk_draw := draw_id d, fk_star_keys := Some t2\<rparr>) = c
         \<and> map_winner C E
              (db\<lparr>forged_keys := [fk\<lparr>fk_draw := draw_id d, fk_star_keys := Some t2\<rparr>]\<rparr>)
              (d\<lparr>star_keys := t1\<rparr>)
            = Inr (None, d\<lparr>star_keys := t1\<rparr>,
                   db\<lparr>forged_keys := [fk\<lparr>fk_draw := draw_id d, fk_star_keys := Some t2\<rparr>]\<rparr>)"
proof -
  let ?E' = "E\<lparr>urandom16 := iv\<rparr>"
  from star_keys_roundtrip[OF assms(1-4) assms(2), of c] obtain t1 where
    e1: "encrypt_data C E (json_dumps c) = Inr t1"
    and g1: "get_star_keys C E (Some t1) = c"
    by blast
  have sk': "SECRET_KEY ?E' = Some s" and tm': "time_now ?E' < 2 ^ 64"
    using assms by simp_all
  from star_keys_roundtrip[OF assms(1) sk' assms(3) tm' assms(2), of c] obtain t2 where
    e2: "encrypt_data C ?E' (json_dumps c) = Inr t2"
    and g2: "get_star_keys C E (Some t2) = c"
    by blast
  have ne: "t1 \<noteq> t2"
    by (rule encrypt_data_fresh_iv[OF e1 e2]) (use assms(5) in simp)
  have gd: "Draw_get_star_keys C E (d\<lparr>star_keys := t1\<rparr>) = c"
    by (simp add: Draw_get_star_keys_def g1)
  have gf: "ForgedKey_get_star_keys C E (fk\<lparr>fk_draw := draw_id d, fk_star_keys := Some t2\<rparr>) = c"
    by (simp add: ForgedKey_get_star_keys_def g2)
  have cn: "c \<noteq> []" using assms(6) by auto
  have mw: "map_winner C E
              (db\<lparr>forged_keys := [fk\<lparr>fk_draw := draw_id d, fk_star_keys := Some t2\<rparr>]\<rparr>)
              (d\<lparr>star_keys := t1\<rparr>)
            = Inr (None, d\<lparr>star_keys := t1\<rparr>,
                   db\<lparr>forged_keys := [fk\<lparr>fk_draw := draw_id d, fk_star_keys := Some t2\<rparr>]\<rparr>)"
    using ne cn assms(6) by (simp add: map_winner_def gd Let_def)
  from e1 e2 ne gd gf mw show ?thesis by blast
qed

theorem encryption_not_deterministic_witness:
  "token_of demo_env [1, 2, 3, 4, 5, 6] \<noteq> token_of (demo_env\<lparr>urandom16 := 2\<rparr>) [1, 2, 3, 4, 5, 6]
   \<and> map_winner demo_crypto demo_env
        (demo_db demo_draw
           [demo_ticket\<lparr>fk_star_keys := Some (token_of (demo_env\<lparr>urandom16 := 2\<rparr>) [1, 2, 3, 4, 5, 6])\<rparr>])
        (demo_draw\<lparr>star_keys := token_of demo_env [1, 2, 3, 4, 5, 6]\<rparr>)
      = Inr (None, demo_draw\<lparr>star_keys := token_of demo_env [1, 2, 3, 4, 5, 6]\<rparr>,
             demo_db demo_draw
               [demo_ticket\<lparr>fk_star_keys := Some (token_of (demo_env\<lparr>urandom16 := 2\<rparr>) [1, 2, 3, 4, 5, 6])\<rparr>])"
proof -
  have iv: "(2 :: 128 word) \<noteq> urandom16 demo_env" by (simp add: demo_env_def)
  have len: "length [1, 2, 3, 4, 5, 6 :: int] = 6" by simp
  from encryption_not_deterministic[OF demo_crypto_ok demo_env_ok(1,2,4) iv len,
      where d = demo_draw and fk = demo_ticket and db = "demo_db demo_draw []"]
  obtain t1 t2 where
    e1: "encrypt_data demo_crypto demo_env (json_dumps [1, 2, 3, 4, 5, 6]) = Inr t1"
    and e2: "encrypt_data demo_crypto (demo_env\<lparr>urandom16 := 2\<rparr>) (json_dumps [1, 2, 3, 4, 5, 6]) = Inr t2"
    and ne: "t1 \<noteq> t2"
    and mw: "map_winner demo_crypto demo_env
              (demo_db demo_draw []
                 \<lparr>forged_keys := [demo_ticket\<lparr>fk_draw := draw_id demo_draw, fk_star_keys := Some t2\<rparr>]\<rparr>)
              (demo_draw\<lparr>star_keys := t1\<rparr>)
            = Inr (None, demo_draw\<lparr>star_keys := t1\<rparr>,
                   demo_db demo_draw []
                     \<lparr>forged_keys := [demo_ticket\<lparr>fk_draw := draw_id demo_draw, fk_star_keys := Some t2\<rparr>]\<rparr>)"
    by blast
  from e1 have t1: "token_of demo_env [1, 2, 3, 4, 5, 6] = t1" by (simp add: token_of_def)
  from e2 have t2: "token_of (demo_env\<lparr>urandom16 := 2\<rparr>) [1, 2, 3, 4, 5, 6] = t2"
    by (simp add: token_of_def)
  have tk: "demo_ticket\<lparr>fk_draw := draw_id demo_draw, fk_star_keys := Some t2\<rparr>
            = demo_ticket\<lparr>fk_star_keys := Some t2\<rparr>"
    by (simp add: demo_ticket_def demo_draw_def)
  have db: "\<And>fks. demo_db demo_draw [] \<lparr>forged_keys := fks\<rparr> = demo_db demo_draw fks"
    by (simp add: demo_db_def)
  from ne mw show ?thesis unfolding t1 t2 tk db by blast
qed

subsection \<open>Winner resolution\<close>

lemma demo_draw_keys:
  "Draw_get_star_keys demo_crypto demo_env (dr\<lparr>star_keys := token_of demo_env keys\<rparr>) = keys"
  by (simp add: Draw_get_star_keys_def demo_token)

lemma demo_draw_keys_if:
  "star_keys dr = token_of demo_env keys \<Longrightarrow> Draw_get_star_keys demo_crypto demo_env dr = keys"
  by (simp add: Draw_get_star_keys_def demo_token)

lemma b64_index_values: "b64_index (CHR ''g'') = Some 32" "b64_index (CHR ''a'') = Some 26"
  "b64_index (CHR ''r'') = Some 43" "b64_index (CHR ''b'') = Some 27"
  by (simp_all add: b64_index_def b64_alphabet_def)

lemma garbage_unreadable: "get_star_keys C demo_env (Some ''garbage'') = []"
  by (simp add: get_star_keys_def decrypt_data_def demo_env_def Fernet_key Fernet_decrypt_def
      b64_index_values Let_def)

lemma nearest_winner_unreadable_ticket:
  "map_nearest_winner demo_crypto demo_env
     (demo_db (demo_draw\<lparr>star_keys := token_of demo_env [1, 2, 3, 4, 5, 6]\<rparr>)
        [demo_ticket\<lparr>fk_star_keys := Some ''garbage''\<rparr>])
     (demo_draw\<lparr>star_keys := token_of demo_env [1, 2, 3, 4, 5, 6]\<rparr>) 0
   = [\<lparr>forged_key = demo_ticket\<lparr>fk_star_keys := Some ''garbage''\<rparr>, match_count = 0,
       matched_keys = {}\<rparr>]"
  by (simp add: map_nearest_winner_def demo_draw_keys_if ForgedKey_get_star_keys_def
      garbage_unreadable demo_db_def demo_draw_def demo_ticket_def Let_def card_insert_if)

text \<open>
  Claim C2 does not hold of the code. \<open>map_nearest_winner\<close> tests the size of the
  \<^emph>\<open>set\<close> of winning symbols against 6 (models.py 174-175), where \<open>map_winner\<close> tests the
  length of the list (152-153): for a draw whose six winning symbols contain a repeated
  symbol it returns the empty list, whatever the tickets and the threshold are.
\<close>

theorem nearest_winner_repeated_symbol:
  assumes "length (Draw_get_star_keys C E d) = 6"
    and "\<not> distinct (Draw_get_star_keys C E d)"
  shows "map_nearest_winner C E db d min_matches = []"
proof -
  have "card (set (Draw_get_star_keys C E d)) \<noteq> 6"
    using assms card_set_eq_length[of "Draw_get_star_keys C E d"] by simp
  then show ?thesis by (simp add: map_nearest_winner_def Let_def)
qed

theorem nearest_winner_repeated_symbol_witness:
  "card (set (Draw_get_star_keys demo_crypto demo_env
                (demo_draw\<lparr>star_keys := token_of demo_env [1, 1, 2, 3, 4, 5]\<rparr>))
         \<inter> set (ForgedKey_get_star_keys demo_crypto demo_env
                (demo_ticket\<lparr>fk_star_keys := Some (token_of demo_env [1, 1, 2, 3, 4, 5])\<rparr>))) = 5
   \<and> map_nearest_winner demo_crypto demo_env
        (demo_db (demo_draw\<lparr>star_keys := token_of demo_env [1, 1, 2, 3, 4, 5]\<rparr>)
           [demo_ticket\<lparr>fk_star_keys := Some (token_of demo_env [1, 1, 2, 3, 4, 5])\<rparr>])
        (demo_draw\<lparr>star_keys := token_of demo_env [1, 1, 2, 3, 4, 5]\<rparr>) 5 = []"
proof -
  let ?d = "demo_draw\<lparr>star_keys := token_of demo_env [1, 1, 2, 3, 4, 5]\<rparr>"
  have k: "Draw_get_star_keys demo_crypto demo_env ?d = [1, 1, 2, 3, 4, 5]"
    by (rule demo_draw_keys)
  have l: "length (Draw_get_star_keys demo_crypto demo_env ?d) = 6"
    and nd: "\<not> distinct (Draw_get_star_keys demo_crypto demo_env ?d)"
    by (simp_all add: k)
  have c: "card (set [1, 1, 2, 3, 4, 5 :: int] \<inter> set [1, 1, 2, 3, 4, 5]) = 5"
    by simp
  from nearest_winner_repeated_symbol[OF l nd] c show ?thesis
    by (simp only: k demo_ticket_keys simp_thms)
qed

text \<open>
  Claim C3 does not hold of the code. For a privileged POST on an ACTIVE draw whose time
  has come and that has an exact-match ticket, \<open>map_winner\<close> saves the winner fields before
  the transaction is entered; inside it \<open>draw.prize_pool * 0.7\<close> raises \<open>TypeError\<close>. The
  response is a failure and the status stays ACTIVE, but the draw's row now holds
  \<open>winning_ticket_serial\<close> and \<open>winner_wallet\<close>.
\<close>

theorem process_draw_partial_update:
  assumes "authenticated req" and "http_method req = ''POST''" and "is_staff req"
    and "draws db i = Some d" and "draw_id d = i"
    and "status d = ACTIVE" and "draw_datetime d \<le> int (time_now E)"
    and "length (Draw_get_star_keys C E d) = 6"
    and "startswith (star_keys d) ''gAAAA''"
    and "filter (\<lambda>fk. fk_draw fk = draw_id d \<and> fk_star_keys fk = Some (star_keys d)) (forged_keys db)
           = fk # rest"
  shows "process_draw C E req db i =
           (JsonFailure (Raised TypeError),
            db\<lparr>draws := (draws db)(i \<mapsto>
                  d\<lparr>winning_ticket_serial := Some (serial_number fk),
                    winner_wallet := Some (fk_user_wallet fk)\<rparr>)\<rparr>)"
proof -
  let ?d1 = "d\<lparr>winning_ticket_serial := Some (serial_number fk),
               winner_wallet := Some (fk_user_wallet fk)\<rparr>"
  have ne: "Draw_get_star_keys C E d \<noteq> []" using assms(8) by auto
  have sv: "Draw_save C E db ?d1 = Inr (?d1, db\<lparr>draws := (draws db)(i \<mapsto> ?d1)\<rparr>)"
    using assms(5,9) by (simp add: Draw_save_def)
  have mw: "map_winner C E db d = Inr (Some fk, ?d1, db\<lparr>draws := (draws db)(i \<mapsto> ?d1)\<rparr>)"
    unfolding map_winner_def Let_def using ne assms(8,10) sv by simp
  show ?thesis
    unfolding process_draw_def using assms(1-4,6,7) mw
    by (simp add: decimal_times_float_def)
qed

theorem process_draw_partial_update_witness:
  "process_draw demo_crypto demo_env demo_request
     (demo_db (demo_draw\<lparr>star_keys := token_of demo_env [1, 2, 3, 4, 5, 6]\<rparr>)
        [demo_ticket\<lparr>fk_star_keys := Some (token_of demo_env [1, 2, 3, 4, 5, 6])\<rparr>]) 1
   = (JsonFailure (Raised TypeError),
      demo_db (demo_draw\<lparr>star_keys := token_of demo_env [1, 2, 3, 4, 5, 6],
                         winning_ticket_serial := Some ''AK000100070001'',
                         winner_wallet := Some 7\<rparr>)
        [demo_ticket\<lparr>fk_star_keys := Some (token_of demo_env [1, 2, 3, 4, 5, 6])\<rparr>])"
proof -
  let ?d = "demo_draw\<lparr>star_keys := token_of demo_env [1, 2, 3, 4, 5, 6]\<rparr>"
  let ?fk = "demo_ticket\<lparr>fk_star_keys := Some (token_of demo_env [1, 2, 3, 4, 5, 6])\<rparr>"
  let ?db = "demo_db ?d [?fk]"
  have r: "authenticated demo_request" "http_method demo_request = ''POST''" "is_staff demo_request"
    by (simp_all add: demo_request_def)
  have a: "draws ?db 1 = Some ?d" "draw_id ?d = 1" "status ?d = ACTIVE"
    "draw_datetime ?d \<le> int (time_now demo_env)"
    by (simp_all add: demo_db_def demo_draw_def demo_env_def)
  have l: "length (Draw_get_star_keys demo_crypto demo_env ?d) = 6"
    by (simp add: demo_draw_keys)
  have p: "startswith (star_keys ?d) ''gAAAA''"
    using encrypt_data_prefix[OF demo_token(1) demo_env_ok(3)] by simp
  have f: "filter (\<lambda>fk. fk_draw fk = draw_id ?d \<and> fk_star_keys fk = Some (star_keys ?d)) (forged_keys ?db)
             = ?fk # []"
    by (simp add: demo_db_def demo_draw_def demo_ticket_def)
  from process_draw_partial_update[OF r a l p f] show ?thesis
    by (simp add: demo_db_def demo_draw_def demo_ticket_def)
qed

subsection \<open>Binary64 rounding\<close>

text \<open>The exponent found by \<open>flog2\<close> brackets its argument, rounding to the nearest integer
  errs by at most a half, and so \<open>float_of\<close> has a relative error of at most \<open>2 ^ -53\<close> in
  the normal range.\<close>

declare flog2.simps [simp del]





lemma float_of_0 [simp]: "float_of 0 = 0"
  by (simp add: float_of_def)





subsection \<open>Prize distribution\<close>















end
